theory Spec2Isabelle
  imports Complex_Main
begin

section \<open>Python primitives used by the scoring core\<close>

text \<open>
  Conventions of the embedding.
  \<^item> A Python \<open>str\<close> is a \<open>string\<close>: a list of code points below 256. On that range
    \<open>lower\<close>, \<open>strip\<close>, \<open>\d\<close> and the regular expressions of the source behave as
    defined here, and \<open>urllib.parse._checknetloc\<close> never raises.
  \<^item> A Python \<open>float\<close> is a \<open>real\<close>: sums and comparisons are exact, the rounding of
    binary floating point is not represented.
  \<^item> An exception is a value of \<open>py_error\<close>; a function that may raise returns
    \<open>py_error + 'a\<close>.
\<close>

datatype py_error = ValueError | ZeroDivisionError

definition startswith :: "string \<Rightarrow> string \<Rightarrow> bool" where
  "startswith s p = (take (length p) s = p)"

text \<open>\<open>contains s p\<close> is Python's \<open>p in s\<close> on strings.\<close>

fun contains :: "string \<Rightarrow> string \<Rightarrow> bool" where
  "contains [] p = (p = [])"
| "contains (c # cs) p = (startswith (c # cs) p \<or> contains cs p)"

text \<open>\<open>split_on d s\<close> is \<open>s.split(d)\<close> for a one-character separator.\<close>

fun split_on :: "char \<Rightarrow> string \<Rightarrow> string list" where
  "split_on d [] = [[]]"
| "split_on d (c # cs) =
     (if c = d then [] # split_on d cs
      else (case split_on d cs of [] \<Rightarrow> [[c]] | w # ws \<Rightarrow> (c # w) # ws))"

text \<open>\<open>join d ws\<close> is \<open>d.join(ws)\<close>.\<close>

fun join :: "char \<Rightarrow> string list \<Rightarrow> string" where
  "join d [] = []"
| "join d [w] = w"
| "join d (w # v # ws) = w @ d # join d (v # ws)"

definition ascii_upper :: "char \<Rightarrow> bool" where
  "ascii_upper c = (65 \<le> (of_char c :: nat) \<and> (of_char c :: nat) \<le> 90)"

definition ascii_lower :: "char \<Rightarrow> bool" where
  "ascii_lower c = (97 \<le> (of_char c :: nat) \<and> (of_char c :: nat) \<le> 122)"

definition ascii_digit :: "char \<Rightarrow> bool" where
  "ascii_digit c = (48 \<le> (of_char c :: nat) \<and> (of_char c :: nat) \<le> 57)"

definition ascii_alpha :: "char \<Rightarrow> bool" where
  "ascii_alpha c = (ascii_upper c \<or> ascii_lower c)"

text \<open>\<open>str.lower\<close>, one code point at a time: A-Z and the Latin-1 capitals move by 32.\<close>

definition lower_char :: "char \<Rightarrow> char" where
  "lower_char c =
     (let n = (of_char c :: nat)
      in if (65 \<le> n \<and> n \<le> 90) \<or> (192 \<le> n \<and> n \<le> 222 \<and> n \<noteq> 215)
         then char_of (n + 32) else c)"

definition lower :: "string \<Rightarrow> string" where
  "lower s = map lower_char s"

text \<open>\<open>str.strip()\<close> removes white space at both ends.\<close>

definition py_space :: "char \<Rightarrow> bool" where
  "py_space c =
     (let n = (of_char c :: nat)
      in (9 \<le> n \<and> n \<le> 13) \<or> (28 \<le> n \<and> n \<le> 32) \<or> n = 133 \<or> n = 160)"

definition strip :: "string \<Rightarrow> string" where
  "strip s = rev (dropWhile py_space (rev (dropWhile py_space s)))"


section \<open>\<open>urllib.parse.urlparse\<close>\<close>

text \<open>
  The library function the normaliser and the structure analyser call, after CPython's
  \<open>urlsplit\<close> and \<open>urlparse\<close>. \<open>ipaddress.ip_address\<close>, which validates a bracketed host,
  is a parameter \<open>ip\<close>: it answers the kind of address, or \<open>None\<close> where it raises.
\<close>

datatype ip_kind = IPv4Address | IPv6Address

record parse_result =
  scheme :: string
  netloc :: string
  path :: string
  params :: string
  query :: string
  fragment :: string

definition c0_control_or_space :: "char \<Rightarrow> bool" where
  "c0_control_or_space c = ((of_char c :: nat) \<le> 32)"

definition unsafe_url_byte :: "char \<Rightarrow> bool" where
  "unsafe_url_byte c = (c = CHR 0x09 \<or> c = CHR 0x0D \<or> c = CHR 0x0A)"

definition scheme_char :: "char \<Rightarrow> bool" where
  "scheme_char c =
     (ascii_lower c \<or> ascii_upper c \<or> ascii_digit c \<or> c = CHR ''+'' \<or> c = CHR ''-'' \<or> c = CHR ''.'')"

definition uses_params :: "string list" where
  "uses_params = ['''', ''ftp'', ''hdl'', ''prospero'', ''http'', ''imap'', ''https'', ''shttp'',
     ''rtsp'', ''rtsps'', ''rtspu'', ''sip'', ''sips'', ''mms'', ''sftp'', ''tel'']"

text \<open>The scheme is what precedes the first colon, when that is a run of scheme characters
  starting with a letter.\<close>

definition split_scheme :: "string \<Rightarrow> string \<times> string" where
  "split_scheme url =
     (let s = takeWhile (\<lambda>c. c \<noteq> CHR '':'') url
      in if CHR '':'' \<in> set url \<and> s \<noteq> [] \<and> ascii_alpha (hd s) \<and> list_all scheme_char s
         then (lower s, drop (length s + 1) url)
         else ([], url))"

definition netloc_delim :: "char \<Rightarrow> bool" where
  "netloc_delim c = (c = CHR ''/'' \<or> c = CHR ''?'' \<or> c = CHR ''#'')"

definition splitnetloc :: "string \<Rightarrow> string \<times> string" where
  "splitnetloc url = (takeWhile (\<lambda>c. \<not> netloc_delim c) url, dropWhile (\<lambda>c. \<not> netloc_delim c) url)"

definition hex_digit :: "char \<Rightarrow> bool" where
  "hex_digit c =
     (ascii_digit c \<or> (97 \<le> (of_char c :: nat) \<and> (of_char c :: nat) \<le> 102)
                    \<or> (65 \<le> (of_char c :: nat) \<and> (of_char c :: nat) \<le> 70))"

text \<open>\<open>check_bracketed_host ip h\<close> holds when \<open>_check_bracketed_host(h)\<close> returns without
  raising: an IPvFuture literal \<open>v<hex>+.<any>+\<close>, or an IPv6 address.\<close>

definition check_bracketed_host :: "(string \<Rightarrow> ip_kind option) \<Rightarrow> string \<Rightarrow> bool" where
  "check_bracketed_host ip hostname =
     (if startswith hostname ''v''
      then (let h = takeWhile hex_digit (tl hostname); r = dropWhile hex_digit (tl hostname)
            in h \<noteq> [] \<and> startswith r ''.'' \<and> tl r \<noteq> [])
      else ip hostname = Some IPv6Address)"

definition bracketed_host :: "string \<Rightarrow> string" where
  "bracketed_host nl =
     takeWhile (\<lambda>c. c \<noteq> CHR '']'') (tl (dropWhile (\<lambda>c. c \<noteq> CHR ''['') nl))"

definition netloc_ok :: "(string \<Rightarrow> ip_kind option) \<Rightarrow> string \<Rightarrow> bool" where
  "netloc_ok ip nl =
     (if CHR ''['' \<in> set nl \<and> CHR '']'' \<in> set nl then check_bracketed_host ip (bracketed_host nl)
      else CHR ''['' \<notin> set nl \<and> CHR '']'' \<notin> set nl)"

definition urlsplit ::
  "(string \<Rightarrow> ip_kind option) \<Rightarrow> string \<Rightarrow> py_error + (string \<times> string \<times> string \<times> string \<times> string)" where
  "urlsplit ip url0 =
     (let url1 = filter (\<lambda>c. \<not> unsafe_url_byte c) (dropWhile c0_control_or_space url0);
          (sch, url2) = split_scheme url1;
          (nl, url3) = (if take 2 url2 = ''//'' then splitnetloc (drop 2 url2) else ([], url2))
      in if take 2 url2 = ''//'' \<and> \<not> netloc_ok ip nl then Inl ValueError
         else
           (let frag = tl (dropWhile (\<lambda>c. c \<noteq> CHR ''#'') url3);
                url4 = takeWhile (\<lambda>c. c \<noteq> CHR ''#'') url3;
                qry = tl (dropWhile (\<lambda>c. c \<noteq> CHR ''?'') url4);
                url5 = takeWhile (\<lambda>c. c \<noteq> CHR ''?'') url4
            in Inr (sch, nl, url5, qry, frag)))"

text \<open>\<open>_splitparams\<close>: the parameters follow the first semicolon of the last path segment.\<close>

definition splitparams :: "string \<Rightarrow> string \<times> string" where
  "splitparams url =
     (let seg = rev (takeWhile (\<lambda>c. c \<noteq> CHR ''/'') (rev url));
          pre = rev (dropWhile (\<lambda>c. c \<noteq> CHR ''/'') (rev url))
      in if CHR '';'' \<in> set seg
         then (pre @ takeWhile (\<lambda>c. c \<noteq> CHR '';'') seg, tl (dropWhile (\<lambda>c. c \<noteq> CHR '';'') seg))
         else (url, []))"

definition urlparse :: "(string \<Rightarrow> ip_kind option) \<Rightarrow> string \<Rightarrow> py_error + parse_result" where
  "urlparse ip url =
     (case urlsplit ip url of
        Inl e \<Rightarrow> Inl e
      | Inr (sch, nl, url5, qry, frag) \<Rightarrow>
          (let (p, prm) = (if sch \<in> set uses_params \<and> CHR '';'' \<in> set url5
                           then splitparams url5 else (url5, []))
           in Inr \<lparr>scheme = sch, netloc = nl, path = p, params = prm, query = qry, fragment = frag\<rparr>))"


section \<open>URL normaliser (\<open>phish_core.py\<close>, \<open>_normalize_url\<close>)\<close>

definition tracking_params :: "string list" where
  "tracking_params = [''utm_source'', ''utm_medium'', ''utm_campaign'', ''ref'', ''source'']"

definition normalize_url :: "(string \<Rightarrow> ip_kind option) \<Rightarrow> string \<Rightarrow> py_error + string" where
  "normalize_url ip url0 =
     (let url = (if startswith url0 ''http://'' \<or> startswith url0 ''https://'' then url0
                 else ''https://'' @ url0)
      in case urlparse ip url of
           Inl e \<Rightarrow> Inl e
         | Inr parsed \<Rightarrow>
             (let query_params = (if query parsed \<noteq> [] then split_on CHR ''&'' (query parsed) else []);
                  filtered_params = filter (\<lambda>p. \<not> list_ex (\<lambda>tp. contains p tp) tracking_params) query_params;
                  clean_query = (if filtered_params \<noteq> [] then join CHR ''&'' filtered_params else []);
                  clean_url = scheme parsed @ ''://'' @ netloc parsed @ path parsed
              in Inr (if clean_query \<noteq> [] then clean_url @ ''?'' @ clean_query else clean_url)))"


section \<open>Heuristic analysers (\<open>phish_core.py\<close>)\<close>

subsection \<open>The regular expressions of the source\<close>

text \<open>
  Every signature of the source is an alternation of literals joined by \<open>.*\<close>, such as
  \<open>facebook.*login|fb.*login\<close>. It is written here as the list of its alternatives, each
  the list of its literals. \<open>.\<close> matches any character but the newline; \<open>re.search\<close>
  looks for a match at any position.
\<close>

type_synonym regex = "string list list"

text \<open>\<open>gap_then k s\<close>: \<open>.*\<close> followed by whatever \<open>k\<close> accepts.\<close>

fun gap_then :: "(string \<Rightarrow> bool) \<Rightarrow> string \<Rightarrow> bool" where
  "gap_then k [] = k []"
| "gap_then k (c # cs) = (k (c # cs) \<or> (c \<noteq> CHR 0x0A \<and> gap_then k cs))"

primrec seq_at :: "string list \<Rightarrow> string \<Rightarrow> bool" where
  "seq_at [] = (\<lambda>s. True)"
| "seq_at (l # ls) =
     (\<lambda>s. startswith s l \<and> (if ls = [] then True else gap_then (seq_at ls) (drop (length l) s)))"

fun any_suffix :: "(string \<Rightarrow> bool) \<Rightarrow> string \<Rightarrow> bool" where
  "any_suffix k [] = k []"
| "any_suffix k (c # cs) = (k (c # cs) \<or> any_suffix k cs)"

definition re_search :: "regex \<Rightarrow> string \<Rightarrow> bool" where
  "re_search pattern s = list_ex (\<lambda>alt. any_suffix (seq_at alt) s) pattern"

text \<open>\<open>re.match(r'\d+\.\d+\.\d+\.\d+', s)\<close>: four runs of digits separated by dots, at the
  start of \<open>s\<close>; what follows them is not looked at.\<close>

definition digits_then :: "(string \<Rightarrow> bool) \<Rightarrow> string \<Rightarrow> bool" where
  "digits_then k s = (takeWhile ascii_digit s \<noteq> [] \<and> k (dropWhile ascii_digit s))"

definition dot_then :: "(string \<Rightarrow> bool) \<Rightarrow> string \<Rightarrow> bool" where
  "dot_then k s = (startswith s ''.'' \<and> k (tl s))"

definition re_match_ip :: "string \<Rightarrow> bool" where
  "re_match_ip s =
     digits_then (dot_then (digits_then (dot_then (digits_then (dot_then
       (digits_then (\<lambda>r. True))))))) s"

subsection \<open>Pattern analyser (\<open>_pattern_analysis\<close>)\<close>

definition threat_patterns :: "regex list" where
  "threat_patterns =
     [[[''bit.ly''], [''goo.gl''], [''tinyurl.com'']],
      [[''facebook'', ''login''], [''fb'', ''login'']],
      [[''bank'', ''verify''], [''account'', ''secure'']],
      [[''free'', ''gift''], [''win'', ''prize'']],
      [[''urgent'', ''action''], [''immediate'', ''response'']],
      [[''myanmar'', ''bank''], [''kbz'', ''verify'']],
      [[''game'', ''hack''], [''free'', ''diamonds'']],
      [[''investment'', ''profit''], [''money'', ''double'']]]"

definition myanmar_patterns :: "regex list" where
  "myanmar_patterns =
     [[[''kbz'', ''verify''], [''kbz'', ''secure'']],
      [[''myanmar'', ''bank'', ''login'']],
      [[''lottery'', ''myanmar''], [''sweepstakes'', ''burma'']],
      [[''inheritance'', ''myanmar''], [''refund'', ''kyat'']],
      [[''police'', ''myanmar''], [''court'', ''yangon'']]]"

definition suspicious_tlds :: "string list" where
  "suspicious_tlds = [''.tk'', ''.ml'', ''.ga'', ''.cf'', ''.gq'']"

text \<open>A character outside \<open>[a-zA-Z0-9./-]\<close>.\<close>

definition special_char :: "char \<Rightarrow> bool" where
  "special_char c =
     (\<not> (ascii_lower c \<or> ascii_upper c \<or> ascii_digit c \<or> c = CHR ''.'' \<or> c = CHR ''/'' \<or> c = CHR ''-''))"

text \<open>The loop \<open>for pattern in ps: if re.search(pattern, s): score += w\<close>.\<close>

definition add_matches :: "real \<Rightarrow> regex list \<Rightarrow> string \<Rightarrow> real \<Rightarrow> real" where
  "add_matches w ps s score = foldl (\<lambda>sc p. if re_search p s then sc + w else sc) score ps"

definition pattern_analysis :: "string \<Rightarrow> py_error + real" where
  "pattern_analysis url =
     (let url_lower = lower url;
          score0 = (if list_ex (contains url_lower) [''bit.ly'', ''goo.gl'', ''tinyurl.com'', ''t.co'']
                    then 0.3 else 0);
          score1 = add_matches 0.2 threat_patterns url_lower score0
      in if length url = 0 then Inl ZeroDivisionError
         else
           (let special_char_ratio = real (length (filter special_char url)) / real (length url);
                score2 = (if special_char_ratio > 0.3 then score1 + 0.2 else score1);
                score3 = (if list_ex (contains url_lower) suspicious_tlds then score2 + 0.4 else score2);
                score4 = add_matches 0.5 myanmar_patterns url_lower score3
            in Inr (min score4 1.0)))"

subsection \<open>Structure analyser (\<open>_analyze_url_structure\<close>)\<close>

definition analyze_url_structure :: "(string \<Rightarrow> ip_kind option) \<Rightarrow> string \<Rightarrow> py_error + real" where
  "analyze_url_structure ip url =
     (case urlparse ip url of
        Inl e \<Rightarrow> Inl e
      | Inr parsed \<Rightarrow>
          (let score0 = (if length (netloc parsed) > 50 then 0.2 else 0);
               score1 = (if re_match_ip (netloc parsed) then score0 + 0.4 else score0);
               score2 = (if list_ex (contains (netloc parsed)) suspicious_tlds then score1 + 0.3 else score1);
               subdomain_count = int (length (split_on CHR ''.'' (netloc parsed))) - 1;
               score3 = (if subdomain_count > 3 then score2 + 0.2 else score2)
           in Inr (min score3 1.0)))"

subsection \<open>Regional analyser (\<open>_detect_myanmar_scams\<close>)\<close>

definition myanmar_scam_keywords :: "string list" where
  "myanmar_scam_keywords =
     [''kbz'', ''ayeyarwady'', ''cb'', ''mab'', ''uab'', ''yoma'', ''kanbawza'',
      ''myanmar'', ''burma'', ''yangon'', ''mandalay'', ''naypyidaw'',
      ''kyat'', ''mmk'', ''myanmar kyat'', ''dollar'', ''usd'',
      ''lottery'', ''sweepstakes'', ''inheritance'', ''refund'',
      ''tax'', ''customs'', ''immigration'', ''police'', ''court'']"

definition detect_myanmar_scams :: "string \<Rightarrow> real" where
  "detect_myanmar_scams url =
     (let url_lower = lower url;
          myanmar_matches = length (filter (contains url_lower) myanmar_scam_keywords);
          score0 = (if myanmar_matches > 0 then 0.3 else 0);
          score1 = add_matches 0.4 myanmar_patterns url_lower score0
      in min score1 1.0)"


section \<open>URLhaus client confidence (\<open>urlhaus_integration.py\<close>, \<open>_calculate_confidence\<close>)\<close>

text \<open>
  \<open>datetime.strptime(date_added, '%Y-%m-%d %H:%M:%S')\<close> is the parameter \<open>strptime\<close>: the
  parsed time in microseconds, or \<open>None\<close> where it raises \<open>ValueError\<close>. \<open>now\<close> is
  \<open>datetime.now()\<close> in microseconds; \<open>timedelta.days\<close> is the floor of the difference
  in days.
\<close>

definition status_modifiers :: "(string \<times> real) list" where
  "status_modifiers = [(''online'', 0.0), (''offline'', -0.1), (''unknown'', -0.2)]"

definition high_risk_tags :: "string list" where
  "high_risk_tags = [''exe'', ''dll'', ''zip'', ''rar'', ''malware'', ''trojan'', ''ransomware'']"

definition calculate_confidence ::
  "(string \<Rightarrow> int option) \<Rightarrow> int \<Rightarrow> string \<Rightarrow> string \<Rightarrow> string list \<Rightarrow> real" where
  "calculate_confidence strptime now url_status date_added tags =
     (let base_confidence = 0.9;
          confidence0 = base_confidence +
            (case map_of status_modifiers url_status of Some m \<Rightarrow> m | None \<Rightarrow> -0.2);
          confidence1 =
            (if date_added \<noteq> [] then
               (case strptime date_added of
                  Some added_date \<Rightarrow>
                    (let days_old = (now - added_date) div 86400000000
                     in if days_old > 30 then confidence0 - 0.1 else confidence0)
                | None \<Rightarrow> confidence0)
             else confidence0);
          confidence2 =
            (if list_ex (\<lambda>tag. tag \<in> set tags) high_risk_tags
             then min 0.95 (confidence1 + 0.05) else confidence1)
      in max 0.0 (min 1.0 confidence2))"


section \<open>Local threat store (\<open>database.py\<close>)\<close>

text \<open>
  What the functions read from outside their arguments and the stored tables is gathered in
  a record: \<open>hashlib.sha256(...).hexdigest()\<close>, \<open>ipaddress.ip_address\<close>, the clock behind
  \<open>CURRENT_TIMESTAMP\<close> and \<open>time.time()\<close>, the URLhaus key of the core object, and the
  answers of the three remote services.
\<close>

datatype 'j http_result =
    RaisesTimeout
  | RaisesConnectionError
  | RaisesOther
  | Response nat "'j option"

text \<open>In \<open>Response code body\<close> the body is \<open>None\<close> where \<open>response.json()\<close> raises.\<close>

record url_info =
  ui_threat :: "string option"
  ui_url_status :: "string option"
  ui_tags :: "string list option"
  ui_date_added :: "string option"

record urlhaus_json =
  uj_query_status :: "string option"
  uj_urls :: "url_info list option"

record host_json =
  hj_query_status :: "string option"
  hj_url_count :: "string option"

record phish_tank_json =
  pj_in_database :: "bool option"
  pj_phish_id :: "string option"
  pj_verified :: "bool option"

record world =
  sha256 :: "string \<Rightarrow> string"
  ip_address :: "string \<Rightarrow> ip_kind option"
  clock :: nat
  auth_key :: "string option"
  urlhaus_url_post :: "string \<Rightarrow> urlhaus_json http_result"
  urlhaus_host_post :: "string \<Rightarrow> host_json http_result"
  phish_tank_post :: "string \<Rightarrow> phish_tank_json http_result"

datatype threat_level = Safe | Medium | High | Critical | Unknown

text \<open>The three tables. A row identifier is the position of the row, counted from 1: rows
  are appended and never deleted.\<close>

record scam_url =
  su_id :: nat
  su_url_hash :: string
  su_original_url :: string
  su_domain :: string
  su_threat_type :: string
  su_confidence :: real
  su_source :: string
  su_tags :: "string list option"
  su_first_seen :: nat
  su_last_seen :: nat
  su_report_count :: int
  su_is_active :: bool

text \<open>The free text of a report: what a user typed, or the text the scoring core composes
  from a URLhaus answer (\<open>Detected by URLhaus: ...\<close>).\<close>

datatype urlhaus_details =
    MalwareDetected string
  | UrlhausNotConfigured
  | UrlNotInDatabase
  | ApiError "string option"
  | InvalidAuthKey
  | RateLimitExceeded
  | HttpError nat
  | ApiTimeout
  | ApiConnectionError
  | UnexpectedError

datatype description = UserText string | DetectedByUrlhaus urlhaus_details

record user_report =
  ur_id :: nat
  ur_url_hash :: string
  ur_original_url :: string
  ur_description :: description
  ur_user_id :: "string option"
  ur_report_type :: string
  ur_status :: string
  ur_created_at :: nat

record detection =
  dh_id :: nat
  dh_url_hash :: string
  dh_original_url :: string
  dh_threat_level :: threat_level
  dh_confidence :: real
  dh_detection_methods :: "string list"
  dh_is_suspicious :: bool
  dh_response_time_ms :: "int option"
  dh_timestamp :: nat

text \<open>\<open>connectable\<close> says whether \<open>sqlite3.connect\<close> and the statements succeed; where
  they raise, every function below takes its \<open>except\<close> branch and the transaction is
  rolled back.\<close>

record database =
  connectable :: bool
  scam_urls :: "scam_url list"
  user_reports :: "user_report list"
  detection_history :: "detection list"

definition hash_url :: "world \<Rightarrow> string \<Rightarrow> string" where
  "hash_url w url =
     (let normalized = strip (lower url);
          normalized' = (if startswith normalized ''http://'' \<or> startswith normalized ''https://''
                         then normalized else ''https://'' @ normalized)
      in sha256 w normalized')"

text \<open>\<open>UPDATE scam_urls SET last_seen = CURRENT_TIMESTAMP, report_count = report_count + 1
  WHERE url_hash = ?\<close>, the statement \<open>check_url_in_database\<close> and \<open>add_user_report\<close> share.\<close>

definition bump_rows :: "world \<Rightarrow> string \<Rightarrow> scam_url list \<Rightarrow> scam_url list" where
  "bump_rows w h rows =
     map (\<lambda>r. if su_url_hash r = h
               then r\<lparr>su_last_seen := clock w, su_report_count := su_report_count r + 1\<rparr>
               else r) rows"

record db_hit =
  hit_is_malicious :: bool
  hit_url_hash :: string
  hit_original_url :: string
  hit_domain :: string
  hit_threat_type :: string
  hit_confidence :: real
  hit_source :: string
  hit_tags :: "string list"
  hit_first_seen :: nat
  hit_report_count :: int
  hit_detection_method :: string

definition check_url_in_database :: "world \<Rightarrow> database \<Rightarrow> string \<Rightarrow> db_hit option \<times> database" where
  "check_url_in_database w db url =
     (if \<not> connectable db then (None, db)
      else
        (let url_hash = hash_url w url
         in case find (\<lambda>r. su_url_hash r = url_hash \<and> su_is_active r) (scam_urls db) of
              None \<Rightarrow> (None, db)
            | Some result \<Rightarrow>
                (Some \<lparr>hit_is_malicious = True,
                       hit_url_hash = su_url_hash result,
                       hit_original_url = su_original_url result,
                       hit_domain = su_domain result,
                       hit_threat_type = su_threat_type result,
                       hit_confidence = su_confidence result,
                       hit_source = su_source result,
                       hit_tags = (case su_tags result of Some ts \<Rightarrow> ts | None \<Rightarrow> []),
                       hit_first_seen = su_first_seen result,
                       hit_report_count = su_report_count result,
                       hit_detection_method = ''local_database''\<rparr>,
                 db\<lparr>scam_urls := bump_rows w url_hash (scam_urls db)\<rparr>)))"

datatype report_message = ReportAddedSuccessfully | ErrorAddingReport

record report_result =
  rr_success :: bool
  rr_message :: report_message
  rr_report_id :: "nat option"
  rr_url_hash :: "string option"

text \<open>\<open>INSERT OR IGNORE INTO scam_urls\<close>: nothing happens when a row with the hash exists.\<close>

definition insert_or_ignore :: "scam_url \<Rightarrow> scam_url list \<Rightarrow> scam_url list" where
  "insert_or_ignore row rows =
     (if list_ex (\<lambda>r. su_url_hash r = su_url_hash row) rows then rows
      else rows @ [row\<lparr>su_id := length rows + 1\<rparr>])"

definition add_user_report ::
  "world \<Rightarrow> database \<Rightarrow> string \<Rightarrow> description \<Rightarrow> string option \<Rightarrow> report_result \<times> database" where
  "add_user_report w db url description user_id =
     (let failed = \<lparr>rr_success = False, rr_message = ErrorAddingReport,
                     rr_report_id = None, rr_url_hash = None\<rparr>
      in if \<not> connectable db then (failed, db)
         else case urlparse (ip_address w) url of
           Inl e \<Rightarrow> (failed, db)
         | Inr parsed \<Rightarrow>
             (let url_hash = hash_url w url;
                  domain = netloc parsed;
                  report = \<lparr>ur_id = length (user_reports db) + 1, ur_url_hash = url_hash,
                            ur_original_url = url, ur_description = description,
                            ur_user_id = user_id, ur_report_type = ''scam'',
                            ur_status = ''pending'', ur_created_at = clock w\<rparr>;
                  row = \<lparr>su_id = 0, su_url_hash = url_hash, su_original_url = url,
                         su_domain = domain, su_threat_type = ''user_reported'',
                         su_confidence = 0.7, su_source = ''user_report'', su_tags = None,
                         su_first_seen = clock w, su_last_seen = clock w,
                         su_report_count = 1, su_is_active = True\<rparr>;
                  inserted = insert_or_ignore row (scam_urls db);
                  lastrowid = (if length inserted = length (scam_urls db) then ur_id report
                               else length inserted)
              in (\<lparr>rr_success = True, rr_message = ReportAddedSuccessfully,
                   rr_report_id = Some lastrowid, rr_url_hash = Some url_hash\<rparr>,
                  db\<lparr>user_reports := user_reports db @ [report],
                     scam_urls := bump_rows w url_hash inserted\<rparr>)))"

definition log_detection ::
  "world \<Rightarrow> database \<Rightarrow> string \<Rightarrow> threat_level \<Rightarrow> real \<Rightarrow> string list \<Rightarrow> bool \<Rightarrow> database" where
  "log_detection w db url level conf methods suspicious =
     (if \<not> connectable db then db
      else db\<lparr>detection_history := detection_history db @
             [\<lparr>dh_id = length (detection_history db) + 1, dh_url_hash = hash_url w url,
               dh_original_url = url, dh_threat_level = level, dh_confidence = conf,
               dh_detection_methods = methods, dh_is_suspicious = suspicious,
               dh_response_time_ms = None, dh_timestamp = clock w\<rparr>]\<rparr>)"



text \<open>\<open>add_default_scam_urls\<close>: the seed records, each inserted unless its hash is present,
  with confidence 0.9 and the column defaults (report count 1, active).\<close>

definition default_scams :: "(string \<times> string \<times> string \<times> string list) list" where
  "default_scams =
     [(''https://kbz-verify-account.secure-banking.cf'', ''phishing'', ''kbz_bank'', [''myanmar'', ''bank'', ''kbz'']),
      (''https://myanmar-lottery-winner.com'', ''scam'', ''lottery'', [''myanmar'', ''lottery'', ''fake'']),
      (''https://kbz-bank-secure-login.tk'', ''phishing'', ''kbz_bank'', [''myanmar'', ''bank'', ''kbz'']),
      (''https://myanmar-inheritance-claim.ml'', ''scam'', ''inheritance'', [''myanmar'', ''inheritance'', ''fake'']),
      (''https://police-myanmar-court-case.cf'', ''scam'', ''police'', [''myanmar'', ''police'', ''court'']),
      (''https://facebook-login-secure.com'', ''phishing'', ''facebook'', [''social'', ''login'', ''fake'']),
      (''https://google-account-verify.tk'', ''phishing'', ''google'', [''google'', ''account'', ''fake'']),
      (''https://paypal-secure-login.ml'', ''phishing'', ''paypal'', [''payment'', ''paypal'', ''fake'']),
      (''https://amazon-account-verify.cf'', ''phishing'', ''amazon'', [''shopping'', ''amazon'', ''fake'']),
      (''https://free-software-download.tk'', ''malware'', ''software'', [''malware'', ''fake_software'']),
      (''https://cracked-games-free.ml'', ''malware'', ''games'', [''malware'', ''piracy'', ''fake'']),
      (''https://adult-content-free.cf'', ''malware'', ''adult'', [''malware'', ''adult'', ''fake''])]"

fun insert_defaults ::
  "world \<Rightarrow> (string \<times> string \<times> string \<times> string list) list \<Rightarrow> scam_url list \<Rightarrow> py_error + scam_url list" where
  "insert_defaults w [] rows = Inr rows"
| "insert_defaults w ((url, threat_type, source, tags) # ds) rows =
     (case urlparse (ip_address w) url of
        Inl e \<Rightarrow> Inl e
      | Inr parsed \<Rightarrow>
          insert_defaults w ds
            (insert_or_ignore
               \<lparr>su_id = 0, su_url_hash = hash_url w url, su_original_url = url,
                su_domain = netloc parsed, su_threat_type = threat_type, su_confidence = 0.9,
                su_source = source, su_tags = Some tags, su_first_seen = clock w,
                su_last_seen = clock w, su_report_count = 1, su_is_active = True\<rparr> rows))"

definition add_default_scam_urls :: "world \<Rightarrow> database \<Rightarrow> database" where
  "add_default_scam_urls w db =
     (if \<not> connectable db then db
      else case insert_defaults w default_scams (scam_urls db) of
             Inl e \<Rightarrow> db
           | Inr rows \<Rightarrow> db\<lparr>scam_urls := rows\<rparr>)"


section \<open>Remote reputation checks (\<open>phish_core.py\<close>)\<close>

text \<open>The texts of the answers are kept as constructors (\<open>urlhaus_details\<close>), not rendered.
  Of the dictionary \<open>_check_urlhaus\<close> returns on a detection, the field \<open>blacklists\<close> is left
  out: nothing reads it.\<close>

record urlhaus_result =
  is_malicious :: bool
  uh_details :: urlhaus_details
  uh_threat :: "string option"
  uh_status :: string
  uh_url_info :: "url_info option"

definition configured :: "world \<Rightarrow> bool" where
  "configured w = (case auth_key w of None \<Rightarrow> False | Some k \<Rightarrow> k \<noteq> [])"

definition not_malicious :: "urlhaus_details \<Rightarrow> string \<Rightarrow> urlhaus_result" where
  "not_malicious d st =
     \<lparr>is_malicious = False, uh_details = d, uh_threat = None, uh_status = st, uh_url_info = None\<rparr>"

definition detected :: "url_info \<Rightarrow> urlhaus_result" where
  "detected info =
     \<lparr>is_malicious = True,
      uh_details = MalwareDetected (case ui_threat info of Some t \<Rightarrow> t | None \<Rightarrow> ''unknown''),
      uh_threat = ui_threat info, uh_status = ''detected'', uh_url_info = Some info\<rparr>"

definition check_urlhaus :: "world \<Rightarrow> string \<Rightarrow> urlhaus_result" where
  "check_urlhaus w url =
     (if \<not> configured w then not_malicious UrlhausNotConfigured ''not_configured''
      else case urlhaus_url_post w url of
        RaisesTimeout \<Rightarrow> not_malicious ApiTimeout ''timeout''
      | RaisesConnectionError \<Rightarrow> not_malicious ApiConnectionError ''connection_error''
      | RaisesOther \<Rightarrow> not_malicious UnexpectedError ''error''
      | Response code body \<Rightarrow>
          if code = 200 then
            (case body of
               None \<Rightarrow> not_malicious UnexpectedError ''error''
             | Some result \<Rightarrow>
                 if uj_query_status result = Some ''ok'' then
                   (case uj_urls result of
                      None \<Rightarrow> detected \<lparr>ui_threat = None, ui_url_status = None,
                                        ui_tags = None, ui_date_added = None\<rparr>
                    | Some [] \<Rightarrow> not_malicious UnexpectedError ''error''
                    | Some (url_info # rest) \<Rightarrow> detected url_info)
                 else if uj_query_status result = Some ''no_results''
                 then not_malicious UrlNotInDatabase ''clean''
                 else not_malicious (ApiError (uj_query_status result)) ''api_error'')
          else if code = 401 then not_malicious InvalidAuthKey ''auth_error''
          else if code = 429 then not_malicious RateLimitExceeded ''rate_limited''
          else not_malicious (HttpError code) ''http_error'')"

record host_result =
  hr_success :: bool
  hr_is_malicious :: "bool option"
  hr_url_count :: "string option"

definition host_failed :: host_result where
  "host_failed = \<lparr>hr_success = False, hr_is_malicious = None, hr_url_count = None\<rparr>"

definition check_urlhaus_host :: "world \<Rightarrow> string \<Rightarrow> host_result" where
  "check_urlhaus_host w host =
     (if \<not> configured w then host_failed
      else case urlhaus_host_post w host of
        Response code body \<Rightarrow>
          if code = 200 then
            (case body of
               None \<Rightarrow> host_failed
             | Some result \<Rightarrow>
                 if hj_query_status result = Some ''ok'' then
                   \<lparr>hr_success = True, hr_is_malicious = Some True,
                    hr_url_count = Some (case hj_url_count result of Some c \<Rightarrow> c | None \<Rightarrow> ''0'')\<rparr>
                 else if hj_query_status result = Some ''no_results'' then
                   \<lparr>hr_success = True, hr_is_malicious = Some False, hr_url_count = None\<rparr>
                 else host_failed)
          else host_failed
      | other \<Rightarrow> host_failed)"

record phish_tank_result =
  is_phishing :: bool
  pt_details :: string
  pt_verified :: bool

definition phish_tank_unavailable :: phish_tank_result where
  "phish_tank_unavailable =
     \<lparr>is_phishing = False, pt_details = ''API unavailable'', pt_verified = False\<rparr>"

definition check_phish_tank :: "world \<Rightarrow> string \<Rightarrow> phish_tank_result" where
  "check_phish_tank w url =
     (case phish_tank_post w url of
        Response code body \<Rightarrow>
          if code = 200 then
            (case body of
               None \<Rightarrow> phish_tank_unavailable
             | Some result \<Rightarrow>
                 \<lparr>is_phishing = (case pj_in_database result of Some b \<Rightarrow> b | None \<Rightarrow> False),
                  pt_details = (case pj_phish_id result of Some i \<Rightarrow> i | None \<Rightarrow> ''Unknown''),
                  pt_verified = (case pj_verified result of Some b \<Rightarrow> b | None \<Rightarrow> False)\<rparr>)
          else phish_tank_unavailable
      | other \<Rightarrow> phish_tank_unavailable)"


section \<open>Verdict combiner (\<open>phish_core.py\<close>, \<open>analyze_url\<close>)\<close>

text \<open>The warnings and the final message are kept as constructors, one for each text of the
  source.\<close>

datatype warning =
    LocalDbWarning string string
  | UrlhausWarning urlhaus_details
  | UrlhausHostInfo string
  | UrlhausHostWarning string
  | PhishTankWarning string
  | MyanmarWarning

datatype message =
    CriticalUrlhaus | CriticalPhishTank | CriticalOther
  | HighUrlhausHost | HighMyanmar | HighOther
  | MediumPattern | MediumOther
  | SafeUrlhaus | SafeOther
  | UnknownSafety
  | UnableToAnalyze

text \<open>The dictionary \<open>results\<close>; the key \<open>message\<close> is set last.\<close>

record results =
  res_url :: string
  is_suspicious :: bool
  threat_level :: threat_level
  detection_methods :: "string list"
  warnings :: "warning list"
  confidence :: real
  analysis_time :: real
  message :: "message option"

text \<open>The dictionary returned by the \<open>except\<close> branch of \<open>analyze_url\<close>.\<close>

record error_result =
  err_url :: string
  err_is_suspicious :: bool
  err_threat_level :: threat_level
  err_error :: py_error
  err_message :: message

datatype verdict = Results results | ErrorResult error_result

text \<open>\<open>invoked\<close> records, in order, which collaborators \<open>analyze_url\<close> has called: it is an
  observation of the run, nothing reads it.\<close>

datatype call =
    CheckUrlhaus string
  | CheckUrlhausHost string
  | CheckPhishTank string
  | PatternAnalysis string
  | AnalyzeUrlStructure string
  | DetectMyanmarScams string

record state =
  store :: database
  invoked :: "call list"

definition calls :: "call list \<Rightarrow> state \<Rightarrow> state" where
  "calls cs st = st\<lparr>invoked := invoked st @ cs\<rparr>"

definition generate_response_message :: "results \<Rightarrow> message" where
  "generate_response_message r =
     (let methods = detection_methods r
      in if threat_level r = Critical then
           (if ''urlhaus'' \<in> set methods then CriticalUrlhaus
            else if ''phish_tank'' \<in> set methods then CriticalPhishTank
            else CriticalOther)
         else if threat_level r = High then
           (if ''urlhaus_host'' \<in> set methods then HighUrlhausHost
            else if ''myanmar_specific'' \<in> set methods then HighMyanmar
            else HighOther)
         else if threat_level r = Medium then
           (if ''pattern_analysis'' \<in> set methods then MediumPattern else MediumOther)
         else if threat_level r = Safe then
           (if ''urlhaus'' \<in> set methods then SafeUrlhaus else SafeOther)
         else UnknownSafety)"

text \<open>The two statements that end every returning path: cap the confidence, render the
  message.\<close>

definition finish :: "results \<Rightarrow> results" where
  "finish r =
     (let r' = r\<lparr>confidence := min (confidence r) 1.0\<rparr>
      in r'\<lparr>message := Some (generate_response_message r')\<rparr>)"

definition host_malicious :: "host_result \<Rightarrow> bool" where
  "host_malicious h = (hr_success h \<and> hr_is_malicious h = Some True)"

definition url_count :: "host_result \<Rightarrow> string" where
  "url_count h = (case hr_url_count h of Some c \<Rightarrow> c | None \<Rightarrow> ''0'')"

subsection \<open>Method 1: local database (lines 91-108)\<close>

definition local_database_tier :: "db_hit \<Rightarrow> results \<Rightarrow> results" where
  "local_database_tier db_result r =
     r\<lparr>is_suspicious := True, threat_level := Critical,
       detection_methods := detection_methods r @ [''local_database''],
       confidence := confidence r + hit_confidence db_result,
       warnings := warnings r @ [LocalDbWarning (hit_threat_type db_result) (hit_source db_result)]\<rparr>"

subsection \<open>Method 2: URLhaus URL check and its host check (lines 110-143)\<close>

definition urlhaus_tier :: "urlhaus_result \<Rightarrow> results \<Rightarrow> results" where
  "urlhaus_tier urlhaus_result r =
     r\<lparr>is_suspicious := True, threat_level := Critical,
       detection_methods := detection_methods r @ [''urlhaus''],
       confidence := confidence r + 0.95,
       warnings := warnings r @ [UrlhausWarning (uh_details urlhaus_result)]\<rparr>"

definition urlhaus_host_extra :: "host_result \<Rightarrow> results \<Rightarrow> results" where
  "urlhaus_host_extra h r =
     (if host_malicious h then
        (let r' = (if ''urlhaus_host'' \<notin> set (detection_methods r)
                   then r\<lparr>detection_methods := detection_methods r @ [''urlhaus_host''],
                          confidence := confidence r + 0.1\<rparr>
                   else r)
         in r'\<lparr>warnings := warnings r' @ [UrlhausHostInfo (url_count h)]\<rparr>)
      else r)"

subsection \<open>The fallback methods (lines 145-201)\<close>

definition host_tier :: "host_result \<Rightarrow> results \<Rightarrow> results" where
  "host_tier h r =
     (if host_malicious h then
        r\<lparr>is_suspicious := True, threat_level := High,
          detection_methods := detection_methods r @ [''urlhaus_host''],
          confidence := confidence r + 0.85,
          warnings := warnings r @ [UrlhausHostWarning (url_count h)]\<rparr>
      else r)"

definition phish_tank_tier :: "phish_tank_result \<Rightarrow> results \<Rightarrow> results" where
  "phish_tank_tier pt r =
     (if is_phishing pt then
        r\<lparr>is_suspicious := True,
          threat_level := (if threat_level r = Safe then Critical
                           else if threat_level r = High then Critical
                           else threat_level r),
          detection_methods := detection_methods r @ [''phish_tank''],
          confidence := confidence r + 0.8,
          warnings := warnings r @ [PhishTankWarning (pt_details pt)]\<rparr>
      else r)"

definition pattern_tier :: "real \<Rightarrow> results \<Rightarrow> results" where
  "pattern_tier pattern_score r =
     (if pattern_score > 0.3 then
        r\<lparr>is_suspicious := True,
          threat_level := (if threat_level r = Safe
                           then (if pattern_score > 0.7 then High else Medium)
                           else threat_level r),
          detection_methods := detection_methods r @ [''pattern_analysis''],
          confidence := confidence r + pattern_score * 0.4\<rparr>
      else r)"

definition structure_tier :: "real \<Rightarrow> results \<Rightarrow> results" where
  "structure_tier structure_score r =
     (if structure_score > 0.6 then
        r\<lparr>is_suspicious := True,
          threat_level := (if threat_level r = Safe then Medium else threat_level r),
          detection_methods := detection_methods r @ [''url_structure''],
          confidence := confidence r + 0.2\<rparr>
      else r)"

definition myanmar_tier :: "real \<Rightarrow> results \<Rightarrow> results" where
  "myanmar_tier myanmar_score r =
     (if myanmar_score > 0.7 then
        r\<lparr>is_suspicious := True,
          threat_level := (if threat_level r = Safe then High
                           else if threat_level r = Medium then High
                           else threat_level r),
          detection_methods := detection_methods r @ [''myanmar_specific''],
          confidence := confidence r + 0.4,
          warnings := warnings r @ [MyanmarWarning]\<rparr>
      else r)"

subsection \<open>The body of the \<open>try\<close> block\<close>

definition initial_results :: "world \<Rightarrow> string \<Rightarrow> results" where
  "initial_results w normalized_url =
     \<lparr>res_url = normalized_url, is_suspicious = False, threat_level = Safe,
      detection_methods = [], warnings = [], confidence = 0.0,
      analysis_time = real (clock w), message = None\<rparr>"

definition log_results :: "world \<Rightarrow> string \<Rightarrow> results \<Rightarrow> state \<Rightarrow> state" where
  "log_results w normalized_url r st =
     st\<lparr>store := log_detection w (store st) normalized_url (threat_level r) (confidence r)
                    (detection_methods r) (is_suspicious r)\<rparr>"

definition local_database_path ::
  "world \<Rightarrow> state \<Rightarrow> string \<Rightarrow> db_hit \<Rightarrow> results \<Rightarrow> (py_error + results) \<times> state" where
  "local_database_path w st normalized_url db_result r0 =
     (let r1 = local_database_tier db_result r0
      in (Inr (finish r1), log_results w normalized_url r1 st))"

definition urlhaus_path ::
  "world \<Rightarrow> state \<Rightarrow> string \<Rightarrow> urlhaus_result \<Rightarrow> results \<Rightarrow> (py_error + results) \<times> state" where
  "urlhaus_path w st normalized_url urlhaus_result r0 =
     (let r1 = urlhaus_tier urlhaus_result r0;
          st1 = st\<lparr>store := snd (add_user_report w (store st) normalized_url
                                   (DetectedByUrlhaus (uh_details urlhaus_result)) None)\<rparr>
      in case urlparse (ip_address w) normalized_url of
           Inl e \<Rightarrow> (Inl e, st1)
         | Inr parsed_url \<Rightarrow>
             (let (r2, st2) =
                    (if netloc parsed_url \<noteq> []
                     then (urlhaus_host_extra (check_urlhaus_host w (netloc parsed_url)) r1,
                           calls [CheckUrlhausHost (netloc parsed_url)] st1)
                     else (r1, st1))
              in (Inr (finish r2), log_results w normalized_url r2 st2)))"

definition fallback_path ::
  "world \<Rightarrow> state \<Rightarrow> string \<Rightarrow> results \<Rightarrow> (py_error + results) \<times> state" where
  "fallback_path w st normalized_url r0 =
     (case urlparse (ip_address w) normalized_url of
        Inl e \<Rightarrow> (Inl e, st)
      | Inr parsed_url \<Rightarrow>
          (let (r1, st1) =
                 (if netloc parsed_url \<noteq> []
                  then (host_tier (check_urlhaus_host w (netloc parsed_url)) r0,
                        calls [CheckUrlhausHost (netloc parsed_url)] st)
                  else (r0, st));
               r2 = phish_tank_tier (check_phish_tank w normalized_url) r1;
               st2 = calls [CheckPhishTank normalized_url, PatternAnalysis normalized_url] st1
           in case pattern_analysis normalized_url of
                Inl e \<Rightarrow> (Inl e, st2)
              | Inr pattern_score \<Rightarrow>
                  (let r3 = pattern_tier pattern_score r2;
                       st3 = calls [AnalyzeUrlStructure normalized_url] st2
                   in case analyze_url_structure (ip_address w) normalized_url of
                        Inl e \<Rightarrow> (Inl e, st3)
                      | Inr structure_score \<Rightarrow>
                          (let r4 = structure_tier structure_score r3;
                               r5 = myanmar_tier (detect_myanmar_scams normalized_url) r4
                           in (Inr (finish r5),
                               calls [DetectMyanmarScams normalized_url] st3)))))"

definition analyze_body :: "world \<Rightarrow> state \<Rightarrow> string \<Rightarrow> (py_error + results) \<times> state" where
  "analyze_body w st url =
     (case normalize_url (ip_address w) url of
        Inl e \<Rightarrow> (Inl e, st)
      | Inr normalized_url \<Rightarrow>
          (let r0 = initial_results w normalized_url;
               (db_result, db1) = check_url_in_database w (store st) normalized_url;
               st1 = st\<lparr>store := db1\<rparr>
           in case db_result of
                Some hit \<Rightarrow> local_database_path w st1 normalized_url hit r0
              | None \<Rightarrow>
                  (let urlhaus_result = check_urlhaus w normalized_url;
                       st2 = calls [CheckUrlhaus normalized_url] st1
                   in if is_malicious urlhaus_result
                      then urlhaus_path w st2 normalized_url urlhaus_result r0
                      else fallback_path w st2 normalized_url r0)))"

text \<open>\<open>analyze_url\<close>: the \<open>try\<close> block and its handler, which answers the raw input, not its
  normal form.\<close>

definition analyze_url :: "world \<Rightarrow> state \<Rightarrow> string \<Rightarrow> verdict \<times> state" where
  "analyze_url w st url =
     (case analyze_body w st url of
        (Inr r, st') \<Rightarrow> (Results r, st')
      | (Inl e, st') \<Rightarrow>
          (ErrorResult \<lparr>err_url = url, err_is_suspicious = False, err_threat_level = Unknown,
                        err_error = e, err_message = UnableToAnalyze\<rparr>, st'))"


text \<open>\<open>path_of u\<close>: the path and the parameters \<open>urlparse\<close> makes of \<open>u\<close> under a scheme that
  takes parameters.\<close>

definition path_of :: "string \<Rightarrow> string \<times> string" where
  "path_of u = (if CHR '';'' \<in> set u then splitparams u else (u, []))"


section \<open>Definitions for the statements\<close>

text \<open>Concrete worlds and stores for the closed examples, readers of the returned dictionary,
  and the definitions that follow the wording of the specification where a claim is compared
  with the source.\<close>

text \<open>Concrete collaborators for the closed examples: a \<open>strptime\<close> that rejects every
  string and an \<open>ip_address\<close> that rejects every host.\<close>

definition unparsed :: "string \<Rightarrow> int option" where
  "unparsed s = None"

definition no_ip :: "string \<Rightarrow> ip_kind option" where
  "no_ip s = None"

text \<open>The confidence of a found URLhaus record as the specification words it: 0.9, less 0.1
  for \<open>offline\<close>, less 0.2 for \<open>unknown\<close>, less 0.1 when the record was added more than 30
  days ago, plus 0.05 capped at 0.95 on a high-risk tag, clamped to the unit interval.\<close>

definition spec_confidence ::
  "(string \<Rightarrow> int option) \<Rightarrow> int \<Rightarrow> string \<Rightarrow> string \<Rightarrow> string list \<Rightarrow> real" where
  "spec_confidence strptime now url_status date_added tags =
     (let c0 = 0.9 + (if url_status = ''offline'' then -0.1
                      else if url_status = ''unknown'' then -0.2 else 0);
          c1 = (case strptime date_added of
                  Some added \<Rightarrow> (if now - added > 30 * 86400000000 then c0 - 0.1 else c0)
                | None \<Rightarrow> c0);
          c2 = (if set tags \<inter> set high_risk_tags \<noteq> {} then min 0.95 (c1 + 0.05) else c1)
      in max 0 (min 1 c2))"

text \<open>\<open>aged\<close>: the date parses and at least 31 whole days have passed since.\<close>

definition aged :: "(string \<Rightarrow> int option) \<Rightarrow> int \<Rightarrow> string \<Rightarrow> bool" where
  "aged strptime now date_added =
     (date_added \<noteq> [] \<and>
      (case strptime date_added of
         Some added \<Rightarrow> now - added \<ge> 31 * 86400000000
       | None \<Rightarrow> False))"


text \<open>A world for the closed examples: the hash is the identity, no URLhaus key is set and
  every remote service times out. The store starts empty.\<close>

definition test_world :: world where
  "test_world =
     \<lparr>sha256 = (\<lambda>s. s), ip_address = no_ip, clock = 0, auth_key = None,
      urlhaus_url_post = (\<lambda>u. RaisesTimeout), urlhaus_host_post = (\<lambda>h. RaisesTimeout),
      phish_tank_post = (\<lambda>u. RaisesTimeout)\<rparr>"

definition empty_db :: database where
  "empty_db = \<lparr>connectable = True, scam_urls = [], user_reports = [], detection_history = []\<rparr>"

definition empty_state :: state where
  "empty_state = \<lparr>store = empty_db, invoked = []\<rparr>"

text \<open>\<open>known\<close>: some row carries the hash of the URL. \<open>active_record\<close>: the row the lookup of
  \<open>check_url_in_database\<close> selects, when the store can be read.\<close>

definition known :: "world \<Rightarrow> database \<Rightarrow> string \<Rightarrow> bool" where
  "known w db url = list_ex (\<lambda>r. su_url_hash r = hash_url w url) (scam_urls db)"

definition active_record :: "world \<Rightarrow> database \<Rightarrow> string \<Rightarrow> scam_url option" where
  "active_record w db url =
     (if connectable db
      then find (\<lambda>r. su_url_hash r = hash_url w url \<and> su_is_active r) (scam_urls db)
      else None)"

text \<open>Reading a key of the returned dictionary, as \<open>dict.get\<close> does: \<open>None\<close> where the
  dictionary has no such key.\<close>

fun verdict_threat_level :: "verdict \<Rightarrow> threat_level" where
  "verdict_threat_level (Results r) = threat_level r"
| "verdict_threat_level (ErrorResult e) = err_threat_level e"

fun verdict_is_suspicious :: "verdict \<Rightarrow> bool" where
  "verdict_is_suspicious (Results r) = is_suspicious r"
| "verdict_is_suspicious (ErrorResult e) = err_is_suspicious e"

fun verdict_confidence :: "verdict \<Rightarrow> real option" where
  "verdict_confidence (Results r) = Some (confidence r)"
| "verdict_confidence (ErrorResult e) = None"

fun verdict_detection_methods :: "verdict \<Rightarrow> string list option" where
  "verdict_detection_methods (Results r) = Some (detection_methods r)"
| "verdict_detection_methods (ErrorResult e) = None"

fun verdict_warnings :: "verdict \<Rightarrow> warning list option" where
  "verdict_warnings (Results r) = Some (warnings r)"
| "verdict_warnings (ErrorResult e) = None"


text \<open>The values of \<open>results\<close> along the fallback methods, from the initial dictionary to the
  one the last method leaves, given the parsed URL and the two scores that may raise.\<close>

definition fallback_results :: "world \<Rightarrow> string \<Rightarrow> parse_result \<Rightarrow> real \<Rightarrow> real \<Rightarrow> results list" where
  "fallback_results w n p ps ss =
     (let r0 = initial_results w n;
          r1 = (if netloc p \<noteq> [] then host_tier (check_urlhaus_host w (netloc p)) r0 else r0);
          r2 = phish_tank_tier (check_phish_tank w n) r1;
          r3 = pattern_tier ps r2;
          r4 = structure_tier ss r3;
          r5 = myanmar_tier (detect_myanmar_scams n) r4
      in [r0, r1, r2, r3, r4, r5])"


text \<open>The test store after one user report of \<open>https://scam.example\<close>.\<close>

definition seeded_state :: state where
  "seeded_state =
     \<lparr>store = snd (add_user_report test_world empty_db ''https://scam.example''
                     (UserText ''fake login'') None),
      invoked = []\<rparr>"


text \<open>The order of the threat levels, \<open>critical > high > medium > safe > unknown\<close>, and the
  severity each tier contributes when it fires, by the name it appends to
  \<open>detection_methods\<close>: the pattern tier contributes \<open>high\<close> above a score of 0.7 and \<open>medium\<close>
  otherwise.\<close>

fun rank :: "threat_level \<Rightarrow> nat" where
  "rank Unknown = 0"
| "rank Safe = 1"
| "rank Medium = 2"
| "rank High = 3"
| "rank Critical = 4"

definition max_level :: "threat_level \<Rightarrow> threat_level \<Rightarrow> threat_level" where
  "max_level a b = (if rank a \<le> rank b then b else a)"

definition severity :: "real \<Rightarrow> string \<Rightarrow> threat_level" where
  "severity pattern_score m =
     (if m = ''local_database'' then Critical
      else if m = ''urlhaus'' then Critical
      else if m = ''urlhaus_host'' then High
      else if m = ''phish_tank'' then Critical
      else if m = ''pattern_analysis'' then (if pattern_score > 0.7 then High else Medium)
      else if m = ''url_structure'' then Medium
      else if m = ''myanmar_specific'' then High
      else Safe)"

text \<open>\<open>tier_trace\<close>: the values of \<open>results\<close> after each tier of one run, in order.\<close>

definition tier_trace ::
  "world \<Rightarrow> database \<Rightarrow> string \<Rightarrow> parse_result \<Rightarrow> real \<Rightarrow> real \<Rightarrow> results list" where
  "tier_trace w db n p ps ss =
     (let r0 = initial_results w n
      in case fst (check_url_in_database w db n) of
           Some hit \<Rightarrow> [r0, local_database_tier hit r0]
         | None \<Rightarrow>
             if is_malicious (check_urlhaus w n) then
               (let r1 = urlhaus_tier (check_urlhaus w n) r0
                in if netloc p \<noteq> []
                   then [r0, r1, urlhaus_host_extra (check_urlhaus_host w (netloc p)) r1]
                   else [r0, r1])
             else fallback_results w n p ps ss)"


text \<open>A world in which URLhaus is configured and reports every URL as malware, and knows of
  no malicious host.\<close>

definition urlhaus_world :: world where
  "urlhaus_world =
     \<lparr>sha256 = (\<lambda>s. s), ip_address = no_ip, clock = 0, auth_key = Some ''key'',
      urlhaus_url_post =
        (\<lambda>u. Response 200 (Some \<lparr>uj_query_status = Some ''ok'', uj_urls = None\<rparr>)),
      urlhaus_host_post =
        (\<lambda>h. Response 200 (Some \<lparr>hj_query_status = Some ''no_results'', hj_url_count = None\<rparr>)),
      phish_tank_post = (\<lambda>u. RaisesTimeout)\<rparr>"


text \<open>The structure score as the specification words it, on the host of the URL: 0.4 for a
  literal dotted quad (four runs of digits separated by three dots, nothing else), 0.2 for
  more than 50 characters, 0.3 for a host ending in a suspicious top-level domain, 0.2 for
  more than 3 dots; clamped to 1.\<close>

definition dotted_quad :: "string \<Rightarrow> bool" where
  "dotted_quad host =
     (let parts = split_on CHR ''.'' host
      in length parts = 4 \<and> list_all (\<lambda>p. p \<noteq> [] \<and> list_all ascii_digit p) parts)"

definition endswith :: "string \<Rightarrow> string \<Rightarrow> bool" where
  "endswith s p = startswith (rev s) (rev p)"

definition dots :: "string \<Rightarrow> nat" where
  "dots s = length (filter (\<lambda>c. c = CHR ''.'') s)"

definition spec_structure_score :: "string \<Rightarrow> real" where
  "spec_structure_score host =
     min 1 ((if dotted_quad host then 0.4 else 0) + (if length host > 50 then 0.2 else 0) +
            (if list_ex (endswith host) suspicious_tlds then 0.3 else 0) +
            (if dots host > 3 then 0.2 else 0))"

text \<open>What the source tests in place of the dotted quad: the text begins with four runs of
  digits separated by dots, whatever follows.\<close>

definition begins_with_digit_runs :: "string \<Rightarrow> bool" where
  "begins_with_digit_runs s =
     (\<exists>a b c d rest. s = a @ ''.'' @ b @ ''.'' @ c @ ''.'' @ d @ rest \<and>
        a \<noteq> [] \<and> b \<noteq> [] \<and> c \<noteq> [] \<and> d \<noteq> [] \<and>
        list_all ascii_digit a \<and> list_all ascii_digit b \<and> list_all ascii_digit c \<and>
        list_all ascii_digit d)"


text \<open>\<open>stored_nonneg\<close>: no stored record has a negative confidence.\<close>

definition stored_nonneg :: "database \<Rightarrow> bool" where
  "stored_nonneg db = (\<forall>row \<in> set (scam_urls db). 0 \<le> su_confidence row)"


section \<open>Evaluation rules\<close>

lemmas parse_defs = normalize_url_def urlparse_def urlsplit_def split_scheme_def splitnetloc_def
  netloc_ok_def startswith_def unsafe_url_byte_def c0_control_or_space_def ascii_alpha_def
  ascii_upper_def ascii_lower_def scheme_char_def ascii_digit_def lower_def lower_char_def
  netloc_delim_def uses_params_def tracking_params_def splitparams_def Let_def


section \<open>A normalised URL parses again\<close>

text \<open>The normaliser answers \<open>scheme://netloc\<close> followed by a path and a query; parsing the
  answer again finds the same network location, so it cannot raise.\<close>

lemma split_on_chars: "w \<in> set (split_on d s) \<Longrightarrow> c \<in> set w \<Longrightarrow> c \<in> set s"
proof (induction s arbitrary: w)
  case Nil
  then show ?case by simp
next
  case (Cons a s)
  then show ?case
    by (cases "split_on d s") (fastforce split: if_splits)+
qed

lemma join_chars: "c \<in> set (join d ws) \<Longrightarrow> c = d \<or> (\<exists>w \<in> set ws. c \<in> set w)"
  by (induction d ws rule: join.induct) auto

lemma splitparams_chars: "c \<in> set (fst (splitparams u)) \<Longrightarrow> c \<in> set u"
proof -
  assume a: "c \<in> set (fst (splitparams u))"
  have 1: "\<And>x. x \<in> set (dropWhile (\<lambda>c. c \<noteq> CHR ''/'') (rev u)) \<Longrightarrow> x \<in> set u"
    using set_dropWhileD by fastforce
  have 2: "\<And>x. x \<in> set (takeWhile (\<lambda>c. c \<noteq> CHR ''/'') (rev u)) \<Longrightarrow> x \<in> set u"
    using set_takeWhileD by fastforce
  from a show ?thesis
    by (auto simp: splitparams_def Let_def 1 split: if_splits dest!: set_takeWhileD dest: 2)
qed

lemma splitparams_hd:
  assumes "u = CHR ''/'' # t"
  shows "\<exists>t'. fst (splitparams u) = CHR ''/'' # t'"
proof -
  have "dropWhile (\<lambda>c. c \<noteq> CHR ''/'') (rev t @ [CHR ''/'']) =
        dropWhile (\<lambda>c. c \<noteq> CHR ''/'') (rev t) @ [CHR ''/'']"
    by (simp add: dropWhile_append3)
  then show ?thesis
    using assms by (simp add: splitparams_def Let_def)
qed



lemma split_scheme_http:
  assumes "sch = ''http'' \<or> sch = ''https''"
  shows "split_scheme (sch @ ''://'' @ rest) = (sch, ''//'' @ rest)"
  using assms
  by (auto simp: split_scheme_def ascii_alpha_def ascii_upper_def ascii_lower_def scheme_char_def
      ascii_digit_def lower_def lower_char_def Let_def)

lemma prefix_http:
  assumes "sch = ''http'' \<or> sch = ''https''"
  shows "filter (\<lambda>c. \<not> unsafe_url_byte c) (dropWhile c0_control_or_space (sch @ ''://'' @ rest)) =
         sch @ ''://'' @ filter (\<lambda>c. \<not> unsafe_url_byte c) rest"
  using assms by (auto simp: unsafe_url_byte_def c0_control_or_space_def)

lemma urlsplit_http:
  assumes "sch = ''http'' \<or> sch = ''https''"
  shows "urlsplit ip (sch @ ''://'' @ rest) =
     (let fr = filter (\<lambda>c. \<not> unsafe_url_byte c) rest;
          nl = takeWhile (\<lambda>c. \<not> netloc_delim c) fr;
          url3 = dropWhile (\<lambda>c. \<not> netloc_delim c) fr
      in if \<not> netloc_ok ip nl then Inl ValueError
         else Inr (sch, nl,
                   takeWhile (\<lambda>c. c \<noteq> CHR ''?'') (takeWhile (\<lambda>c. c \<noteq> CHR ''#'') url3),
                   tl (dropWhile (\<lambda>c. c \<noteq> CHR ''?'') (takeWhile (\<lambda>c. c \<noteq> CHR ''#'') url3)),
                   tl (dropWhile (\<lambda>c. c \<noteq> CHR ''#'') url3)))"
  apply (simp only: urlsplit_def prefix_http [OF assms])
  apply (simp only: Let_def split_scheme_http [OF assms] prod.case)
  apply (simp add: splitnetloc_def Let_def)
  done



lemma urlparse_http:
  assumes "sch = ''http'' \<or> sch = ''https''"
  shows "urlparse ip (sch @ ''://'' @ rest) =
     (let fr = filter (\<lambda>c. \<not> unsafe_url_byte c) rest;
          nl = takeWhile (\<lambda>c. \<not> netloc_delim c) fr;
          url3 = dropWhile (\<lambda>c. \<not> netloc_delim c) fr;
          url4 = takeWhile (\<lambda>c. c \<noteq> CHR ''#'') url3;
          url5 = takeWhile (\<lambda>c. c \<noteq> CHR ''?'') url4
      in if \<not> netloc_ok ip nl then Inl ValueError
         else Inr \<lparr>scheme = sch, netloc = nl, path = fst (path_of url5), params = snd (path_of url5),
                   query = tl (dropWhile (\<lambda>c. c \<noteq> CHR ''?'') url4),
                   fragment = tl (dropWhile (\<lambda>c. c \<noteq> CHR ''#'') url3)\<rparr>)"
proof -
  have up: "sch \<in> set uses_params"
    using assms by (auto simp: uses_params_def)
  show ?thesis
    unfolding urlparse_def urlsplit_http [OF assms]
    by (simp add: Let_def up path_of_def split: prod.splits)
qed

lemma path_of_chars: "c \<in> set (fst (path_of u)) \<Longrightarrow> c \<in> set u"
  by (auto simp: path_of_def dest: splitparams_chars split: if_splits)

lemma path_of_hd: "u = CHR ''/'' # t \<Longrightarrow> \<exists>t'. fst (path_of u) = CHR ''/'' # t'"
  using splitparams_hd [of u t] by (auto simp: path_of_def)

lemma url5_shape:
  assumes "url3 = [] \<or> netloc_delim (hd url3)"
  shows "takeWhile (\<lambda>c. c \<noteq> CHR ''?'') (takeWhile (\<lambda>c. c \<noteq> CHR ''#'') url3) = [] \<or>
         (\<exists>t. takeWhile (\<lambda>c. c \<noteq> CHR ''?'') (takeWhile (\<lambda>c. c \<noteq> CHR ''#'') url3) = CHR ''/'' # t)"
  using assms by (cases url3) (auto simp: netloc_delim_def)

lemma urlparse_shape:
  assumes sch: "sch = ''http'' \<or> sch = ''https''"
    and nl: "\<forall>c \<in> set nl. \<not> netloc_delim c"
    and ok: "netloc_ok ip nl"
    and rest: "rest = [] \<or> netloc_delim (hd rest)"
    and safe: "\<forall>c \<in> set (nl @ rest). \<not> unsafe_url_byte c"
  shows "\<exists>p. urlparse ip (sch @ ''://'' @ nl @ rest) = Inr p \<and> netloc p = nl"
proof -
  have f: "filter (\<lambda>c. \<not> unsafe_url_byte c) (nl @ rest) = nl @ rest"
    using safe by (simp add: filter_id_conv)
  have "takeWhile (\<lambda>c. \<not> netloc_delim c) rest = []"
    using rest by (cases rest) auto
  then have t: "takeWhile (\<lambda>c. \<not> netloc_delim c) (nl @ rest) = nl"
    using nl by simp
  show ?thesis
    unfolding urlparse_http [OF sch] f
    by (simp add: Let_def t ok)
qed

lemma startswith_append: "startswith s p \<Longrightarrow> s = p @ drop (length p) s"
  by (metis append_take_drop_id startswith_def)

lemma normalize_url_shape:
  assumes "normalize_url ip url = Inr n"
  shows "\<exists>sch nl rest. (sch = ''http'' \<or> sch = ''https'') \<and> n = sch @ ''://'' @ nl @ rest \<and>
           (\<forall>c \<in> set nl. \<not> netloc_delim c) \<and> netloc_ok ip nl \<and>
           (rest = [] \<or> netloc_delim (hd rest)) \<and> (\<forall>c \<in> set (nl @ rest). \<not> unsafe_url_byte c)"
proof -
  define url' where "url' = (if startswith url ''http://'' \<or> startswith url ''https://'' then url
                             else ''https://'' @ url)"
  have "\<exists>sch rest0. (sch = ''http'' \<or> sch = ''https'') \<and> url' = sch @ ''://'' @ rest0"
  proof (cases "startswith url ''http://''")
    case True
    from startswith_append [OF True] have "url' = ''http'' @ ''://'' @ drop (length ''http://'') url"
      unfolding url'_def using True by simp
    then show ?thesis by blast
  next
    case False
    show ?thesis
    proof (cases "startswith url ''https://''")
      case True
      from startswith_append [OF True] have "url' = ''https'' @ ''://'' @ drop (length ''https://'') url"
        unfolding url'_def using True by simp
      then show ?thesis by blast
    next
      case F2: False
      have "url' = ''https'' @ ''://'' @ url"
        unfolding url'_def using False F2 by simp
      then show ?thesis by blast
    qed
  qed
  then obtain sch rest0 where sch: "sch = ''http'' \<or> sch = ''https''"
    and url': "url' = sch @ ''://'' @ rest0" by blast
  define fr where "fr = filter (\<lambda>c. \<not> unsafe_url_byte c) rest0"
  define nl where "nl = takeWhile (\<lambda>c. \<not> netloc_delim c) fr"
  define url3 where "url3 = dropWhile (\<lambda>c. \<not> netloc_delim c) fr"
  define url4 where "url4 = takeWhile (\<lambda>c. c \<noteq> CHR ''#'') url3"
  define url5 where "url5 = takeWhile (\<lambda>c. c \<noteq> CHR ''?'') url4"
  define qry where "qry = tl (dropWhile (\<lambda>c. c \<noteq> CHR ''?'') url4)"
  define p where "p = fst (path_of url5)"
  define fps where "fps = filter (\<lambda>p. \<not> list_ex (\<lambda>tp. contains p tp) tracking_params)
                            (if qry \<noteq> [] then split_on CHR ''&'' qry else [])"
  define q where "q = (if fps \<noteq> [] \<and> join CHR ''&'' fps \<noteq> [] then ''?'' @ join CHR ''&'' fps else [])"
  have up: "urlparse ip url' =
      (if \<not> netloc_ok ip nl then Inl ValueError
       else Inr \<lparr>scheme = sch, netloc = nl, path = p, params = snd (path_of url5),
                 query = qry, fragment = tl (dropWhile (\<lambda>c. c \<noteq> CHR ''#'') url3)\<rparr>)"
    unfolding url' urlparse_http [OF sch]
    by (simp add: Let_def fr_def nl_def url3_def url4_def url5_def qry_def p_def)
  have nu: "normalize_url ip url =
      (case urlparse ip url' of Inl e \<Rightarrow> Inl e
       | Inr parsed \<Rightarrow>
          (let qps = (if query parsed \<noteq> [] then split_on CHR ''&'' (query parsed) else []);
               fp = filter (\<lambda>p. \<not> list_ex (\<lambda>tp. contains p tp) tracking_params) qps;
               cq = (if fp \<noteq> [] then join CHR ''&'' fp else []);
               cu = scheme parsed @ ''://'' @ netloc parsed @ path parsed
           in Inr (if cq \<noteq> [] then cu @ ''?'' @ cq else cu)))"
    unfolding normalize_url_def url'_def Let_def by (rule refl)
  have ok: "netloc_ok ip nl"
    using assms unfolding nu up by (cases "netloc_ok ip nl") simp_all
  have n: "n = sch @ ''://'' @ nl @ p @ q"
    using assms unfolding nu up using ok
    by (simp add: Let_def q_def fps_def split: if_splits)
  have frsafe: "\<And>c. c \<in> set fr \<Longrightarrow> \<not> unsafe_url_byte c"
    by (simp add: fr_def)
  have nlsub: "\<And>c. c \<in> set nl \<Longrightarrow> c \<in> set fr"
    unfolding nl_def by (auto dest: set_takeWhileD)
  have u3sub: "\<And>c. c \<in> set url3 \<Longrightarrow> c \<in> set fr"
    unfolding url3_def by (auto dest: set_dropWhileD)
  have u4sub: "\<And>c. c \<in> set url4 \<Longrightarrow> c \<in> set fr"
    unfolding url4_def by (auto dest: set_takeWhileD u3sub)
  have psub: "\<And>c. c \<in> set p \<Longrightarrow> c \<in> set fr"
    unfolding p_def url5_def by (auto dest!: path_of_chars set_takeWhileD u4sub)
  have qrysub: "\<And>c. c \<in> set qry \<Longrightarrow> c \<in> set fr"
    unfolding qry_def
    by (metis list.sel(2) list.set_sel(2) set_dropWhileD u4sub)
  have fpssub: "\<And>w c. w \<in> set fps \<Longrightarrow> c \<in> set w \<Longrightarrow> c \<in> set fr"
    unfolding fps_def by (auto dest: split_on_chars qrysub split: if_splits)
  have qsafe: "\<And>c. c \<in> set q \<Longrightarrow> \<not> unsafe_url_byte c"
  proof -
    fix c assume "c \<in> set q"
    then have "c = CHR ''?'' \<or> c \<in> set (join CHR ''&'' fps)"
      by (auto simp: q_def split: if_splits)
    then have "c = CHR ''?'' \<or> c = CHR ''&'' \<or> (\<exists>w \<in> set fps. c \<in> set w)"
      using join_chars by fastforce
    then show "\<not> unsafe_url_byte c"
      using fpssub frsafe by (auto simp: unsafe_url_byte_def)
  qed
  have nld: "\<forall>c \<in> set nl. \<not> netloc_delim c"
    unfolding nl_def by (auto dest: set_takeWhileD)
  have "url3 = [] \<or> netloc_delim (hd url3)"
    unfolding url3_def using hd_dropWhile [of "\<lambda>c. \<not> netloc_delim c" fr] by auto
  then have "url5 = [] \<or> (\<exists>t. url5 = CHR ''/'' # t)"
    unfolding url5_def url4_def by (rule url5_shape)
  then have "p = [] \<or> (\<exists>t. p = CHR ''/'' # t)"
  proof
    assume "url5 = []"
    then show ?thesis by (simp add: p_def path_of_def)
  next
    assume "\<exists>t. url5 = CHR ''/'' # t"
    then show ?thesis unfolding p_def using path_of_hd by blast
  qed
  moreover have "q = [] \<or> hd q = CHR ''?''"
    by (simp add: q_def)
  ultimately have rest: "p @ q = [] \<or> netloc_delim (hd (p @ q))"
    by (auto simp: netloc_delim_def)
  have safe: "\<forall>c \<in> set (nl @ p @ q). \<not> unsafe_url_byte c"
    using nlsub psub frsafe qsafe by auto
  show ?thesis
    using sch n nld ok rest safe by blast
qed

lemma normalize_url_reparse:
  assumes "normalize_url ip url = Inr n"
  shows "\<exists>p. urlparse ip n = Inr p"
  using normalize_url_shape [OF assms] urlparse_shape by blast

lemma normalize_url_nonempty:
  assumes "normalize_url ip url = Inr n"
  shows "n \<noteq> []"
  using normalize_url_shape [OF assms] by auto


section \<open>The URL normaliser\<close>

text \<open>
  Claim C5. The normaliser is claimed to drop a query parameter exactly when its key is one
  of \<open>utm_source\<close>, \<open>utm_medium\<close>, \<open>utm_campaign\<close>, \<open>ref\<close>, \<open>source\<close>. The source tests whether
  a denylist name occurs anywhere in the text \<open>key=value\<close>, so the parameter \<open>href=1\<close>,
  whose key \<open>href\<close> is not on the list, is dropped as well.
\<close>

theorem normalize_url_drops_href:
  "normalize_url ip ''https://a.com/?href=1'' = Inr ''https://a.com/'' \<and>
   ''href'' \<notin> set tracking_params"
  by (simp add: parse_defs)

theorem normalize_url_drops_href_witness:
  "normalize_url no_ip ''https://a.com/?href=1'' = Inr ''https://a.com/''"
  using normalize_url_drops_href [of no_ip] by simp


section \<open>The URLhaus confidence\<close>

text \<open>
  Claim C6, as stated, fails on a status outside \<open>online\<close>, \<open>offline\<close>, \<open>unknown\<close>: the
  source subtracts 0.2 for every status it does not list, the claimed formula subtracts
  nothing.
\<close>

theorem calculate_confidence_unlisted_status:
  "calculate_confidence unparsed 0 ''suspended'' [] [] = 0.7 \<and>
   spec_confidence unparsed 0 ''suspended'' [] [] = 0.9"
  by (simp add: calculate_confidence_def spec_confidence_def status_modifiers_def
      high_risk_tags_def unparsed_def)

text \<open>
  Claim C6, amended. The confidence of a found record is 0.9, less 0.1 when the status is
  \<open>offline\<close> and less 0.2 when it is anything but \<open>online\<close> or \<open>offline\<close>, less 0.1 when the
  date parses and lies at least 31 whole days back, plus 0.05 when a tag is in the
  high-risk set. The sum lies between 0.6 and 0.95, so neither the cap at 0.95 nor the
  clamp to the unit interval ever changes it.
\<close>

theorem calculate_confidence_additive:
  "calculate_confidence strptime now url_status date_added tags =
     0.9 - (if url_status = ''online'' then 0 else if url_status = ''offline'' then 0.1 else 0.2)
         - (if aged strptime now date_added then 0.1 else 0)
         + (if set tags \<inter> set high_risk_tags \<noteq> {} then 0.05 else 0)"
proof -
  have ex: "list_ex (\<lambda>tag. tag \<in> set tags) high_risk_tags = (set tags \<inter> set high_risk_tags \<noteq> {})"
    by (auto simp: list_ex_iff)
  have days: "\<And>a. ((now - a) div 86400000000 > 30) = (now - a \<ge> 31 * 86400000000)"
    by linarith
  show ?thesis
    unfolding calculate_confidence_def Let_def ex aged_def days
    by (auto simp: status_modifiers_def split: option.splits)
qed

theorem calculate_confidence_additive_witness:
  "calculate_confidence unparsed 0 ''offline'' [] [''exe''] = 0.85"
  using calculate_confidence_additive [of unparsed 0 "''offline''" "[]" "[''exe'']"]
  by (simp add: aged_def high_risk_tags_def)


section \<open>User reports\<close>

lemma urlparse_netloc_eval:
  "urlparse no_ip ''https://scam.example'' =
     Inr \<lparr>scheme = ''https'', netloc = ''scam.example'', path = [], params = [], query = [], fragment = []\<rparr>"
  by (simp add: parse_defs)

text \<open>
  Claim C7. A report of a URL the store does not know is claimed to create a record with
  threat type \<open>user_reported\<close>, confidence 0.7 and report count 1. The source inserts the
  record with count 1 and then runs the update that adds one to the count of every row
  with that hash, the new row included: the record is created with count 2.
\<close>

theorem add_user_report_new_record:
  assumes "connectable db" and "urlparse (ip_address w) url = Inr parsed" and "\<not> known w db url"
  shows "scam_urls (snd (add_user_report w db url description user_id)) =
           scam_urls db @
             [\<lparr>su_id = length (scam_urls db) + 1, su_url_hash = hash_url w url, su_original_url = url,
               su_domain = netloc parsed, su_threat_type = ''user_reported'', su_confidence = 0.7,
               su_source = ''user_report'', su_tags = None, su_first_seen = clock w,
               su_last_seen = clock w, su_report_count = 2, su_is_active = True\<rparr>]"
proof -
  have nb: "bump_rows w (hash_url w url) (scam_urls db) = scam_urls db"
    using assms(3) unfolding known_def bump_rows_def list_ex_iff
    by (induction "scam_urls db") (auto simp: map_idI)
  show ?thesis
    using assms nb
    by (simp add: add_user_report_def insert_or_ignore_def known_def Let_def bump_rows_def)
qed

theorem add_user_report_new_record_witness:
  "map su_report_count
     (scam_urls (snd (add_user_report test_world empty_db ''https://scam.example''
        (UserText ''fake login'') None))) = [2]"
  using add_user_report_new_record [of empty_db test_world "''https://scam.example''" _ "UserText ''fake login''" None]
  by (simp add: empty_db_def test_world_def urlparse_netloc_eval known_def)


section \<open>The run of \<open>analyze_url\<close>\<close>

lemma analysis_inputs:
  assumes "normalize_url ip url = Inr n"
  shows "\<exists>p ps ss. urlparse ip n = Inr p \<and> pattern_analysis n = Inr ps \<and>
           analyze_url_structure ip n = Inr ss"
proof -
  obtain p where p: "urlparse ip n = Inr p"
    using normalize_url_reparse [OF assms] by blast
  have "n \<noteq> []" using normalize_url_nonempty [OF assms] .
  then have "\<exists>ps. pattern_analysis n = Inr ps"
    by (simp add: pattern_analysis_def Let_def)
  moreover have "\<exists>ss. analyze_url_structure ip n = Inr ss"
    by (simp add: analyze_url_structure_def p Let_def)
  ultimately show ?thesis using p by blast
qed

lemma finish_fields [simp]:
  "res_url (finish r) = res_url r"
  "threat_level (finish r) = threat_level r"
  "is_suspicious (finish r) = is_suspicious r"
  "detection_methods (finish r) = detection_methods r"
  "warnings (finish r) = warnings r"
  "confidence (finish r) = min (confidence r) 1"
  by (simp_all add: finish_def Let_def)

lemma tier_res_url [simp]:
  "res_url (local_database_tier hit r) = res_url r"
  "res_url (urlhaus_tier u r) = res_url r"
  "res_url (urlhaus_host_extra h r) = res_url r"
  "res_url (host_tier h r) = res_url r"
  "res_url (phish_tank_tier pt r) = res_url r"
  "res_url (pattern_tier ps r) = res_url r"
  "res_url (structure_tier ss r) = res_url r"
  "res_url (myanmar_tier ms r) = res_url r"
  by (simp_all add: local_database_tier_def urlhaus_tier_def urlhaus_host_extra_def host_tier_def
      phish_tank_tier_def pattern_tier_def structure_tier_def myanmar_tier_def Let_def)

lemma fallback_path_result:
  assumes "urlparse (ip_address w) n = Inr p" "pattern_analysis n = Inr ps"
    "analyze_url_structure (ip_address w) n = Inr ss"
  shows "fst (fallback_path w st n (initial_results w n)) = Inr (finish (last (fallback_results w n p ps ss)))"
  using assms by (simp add: fallback_path_def fallback_results_def Let_def split: prod.splits)

lemma urlhaus_path_result:
  assumes "urlparse (ip_address w) n = Inr p"
  shows "fst (urlhaus_path w st n u r0) =
           Inr (finish (if netloc p \<noteq> [] then urlhaus_host_extra (check_urlhaus_host w (netloc p)) (urlhaus_tier u r0)
                        else urlhaus_tier u r0))"
  using assms by (simp add: urlhaus_path_def Let_def split: prod.splits)

lemma analyze_body_Inl:
  "normalize_url (ip_address w) url = Inl e \<Longrightarrow> analyze_body w st url = (Inl e, st)"
  by (simp add: analyze_body_def)

lemma analyze_body_unfold:
  assumes "normalize_url (ip_address w) url = Inr n"
    and "check_url_in_database w (store st) n = (dr, db1)"
  shows "analyze_body w st url =
     (case dr of
        Some hit \<Rightarrow> local_database_path w (st\<lparr>store := db1\<rparr>) n hit (initial_results w n)
      | None \<Rightarrow>
          (if is_malicious (check_urlhaus w n)
           then urlhaus_path w (calls [CheckUrlhaus n] (st\<lparr>store := db1\<rparr>)) n (check_urlhaus w n)
                  (initial_results w n)
           else fallback_path w (calls [CheckUrlhaus n] (st\<lparr>store := db1\<rparr>)) n (initial_results w n)))"
  using assms by (simp add: analyze_body_def Let_def split: option.splits)

lemma analyze_body_Inr:
  assumes "normalize_url (ip_address w) url = Inr n"
  shows "\<exists>r. fst (analyze_body w st url) = Inr r \<and> res_url r = n"
proof -
  obtain p ps ss where i: "urlparse (ip_address w) n = Inr p" "pattern_analysis n = Inr ps"
      "analyze_url_structure (ip_address w) n = Inr ss"
    using analysis_inputs [OF assms] by blast
  obtain dr db1 where c: "check_url_in_database w (store st) n = (dr, db1)"
    by (cases "check_url_in_database w (store st) n") auto
  note u = analyze_body_unfold [OF assms c]
  have r0: "res_url (initial_results w n) = n" by (simp add: initial_results_def)
  show ?thesis
  proof (cases dr)
    case (Some hit)
    then show ?thesis
      unfolding u using r0 by (simp add: local_database_path_def Let_def)
  next
    case None
    show ?thesis
    proof (cases "is_malicious (check_urlhaus w n)")
      case True
      then show ?thesis
        unfolding u using None r0 urlhaus_path_result [OF i(1)] by simp
    next
      case False
      have "res_url (last (fallback_results w n p ps ss)) = n"
        by (simp add: fallback_results_def Let_def r0)
      then show ?thesis
        unfolding u using None False fallback_path_result [OF i] by simp
    qed
  qed
qed

text \<open>
  Claim C2. \<open>analyze_url\<close> answers a verdict for every input string. Only the normaliser
  can raise: when it does, the answer is the dictionary of the handler; when it does not,
  the answer is a full verdict for the normalised URL. Whenever a step of the body raises,
  the verdict has threat level \<open>unknown\<close> and is not suspicious.
\<close>

theorem analyze_url_always_verdict:
  "((\<exists>n r. normalize_url (ip_address w) url = Inr n \<and> fst (analyze_url w st url) = Results r \<and> res_url r = n)
    \<or> (\<exists>e. normalize_url (ip_address w) url = Inl e \<and> fst (analyze_body w st url) = Inl e))
   \<and> (\<forall>e. fst (analyze_body w st url) = Inl e \<longrightarrow>
          verdict_threat_level (fst (analyze_url w st url)) = Unknown \<and>
          \<not> verdict_is_suspicious (fst (analyze_url w st url)))"
proof -
  have a: "(\<exists>n r. normalize_url (ip_address w) url = Inr n \<and> fst (analyze_url w st url) = Results r \<and> res_url r = n)
    \<or> (\<exists>e. normalize_url (ip_address w) url = Inl e \<and> fst (analyze_body w st url) = Inl e)"
  proof (cases "normalize_url (ip_address w) url")
    case (Inl e)
    then show ?thesis using analyze_body_Inl [OF Inl] by simp
  next
    case (Inr n)
    then obtain r where "fst (analyze_body w st url) = Inr r" "res_url r = n"
      using analyze_body_Inr by blast
    then have "fst (analyze_url w st url) = Results r"
      by (cases "analyze_body w st url") (simp add: analyze_url_def)
    then show ?thesis using Inr \<open>res_url r = n\<close> by blast
  qed
  have b: "\<forall>e. fst (analyze_body w st url) = Inl e \<longrightarrow>
          verdict_threat_level (fst (analyze_url w st url)) = Unknown \<and>
          \<not> verdict_is_suspicious (fst (analyze_url w st url))"
    by (cases "analyze_body w st url") (auto simp: analyze_url_def)
  show ?thesis using a b by blast
qed

text \<open>
  Claim C10. When an exception escapes the body, the answer is the dictionary with the keys
  \<open>url\<close> (the raw input), \<open>is_suspicious\<close> (false), \<open>threat_level\<close> (\<open>unknown\<close>), \<open>error\<close>
  and \<open>message\<close>; it has no \<open>confidence\<close>, no \<open>detection_methods\<close> and no \<open>warnings\<close>.
\<close>

theorem analyze_url_error_result:
  assumes "fst (analyze_body w st url) = Inl e"
  shows "fst (analyze_url w st url) =
           ErrorResult \<lparr>err_url = url, err_is_suspicious = False, err_threat_level = Unknown,
                         err_error = e, err_message = UnableToAnalyze\<rparr> \<and>
         verdict_confidence (fst (analyze_url w st url)) = None \<and>
         verdict_detection_methods (fst (analyze_url w st url)) = None \<and>
         verdict_warnings (fst (analyze_url w st url)) = None"
  using assms by (cases "analyze_body w st url") (auto simp: analyze_url_def)

lemma normalize_bracket: "normalize_url no_ip ''['' = Inl ValueError"
  by (simp add: parse_defs)

lemma analyze_body_bracket: "fst (analyze_body test_world empty_state ''['') = Inl ValueError"
  by (simp add: analyze_body_def test_world_def normalize_bracket)

theorem analyze_url_error_result_witness:
  "fst (analyze_url test_world empty_state ''['') =
     ErrorResult \<lparr>err_url = ''['', err_is_suspicious = False, err_threat_level = Unknown,
                   err_error = ValueError, err_message = UnableToAnalyze\<rparr>"
  using analyze_url_error_result [OF analyze_body_bracket] by simp

theorem analyze_url_always_verdict_witness:
  "verdict_threat_level (fst (analyze_url test_world empty_state ''['')) = Unknown \<and>
   \<not> verdict_is_suspicious (fst (analyze_url test_world empty_state ''['')) \<and>
   normalize_url (ip_address test_world) ''['' = Inl ValueError"
  using analyze_url_always_verdict [of test_world "''[''" empty_state] analyze_body_bracket
  by (simp add: test_world_def normalize_bracket)


section \<open>The local database tier\<close>

lemma normalize_scam_example:
  "normalize_url no_ip ''https://scam.example'' = Inr ''https://scam.example''"
  by (simp add: parse_defs)

lemma hash_scam_example:
  "hash_url test_world ''https://scam.example'' = ''https://scam.example''"
  by (simp add: hash_url_def test_world_def strip_def py_space_def lower_def lower_char_def
      startswith_def Let_def)

lemma test_world_fields:
  "ip_address test_world = no_ip" "clock test_world = 0" "auth_key test_world = None"
  "sha256 test_world s = s"
  by (simp_all add: test_world_def)

lemma seeded_store:
  "store seeded_state =
     \<lparr>connectable = True,
      scam_urls = [\<lparr>su_id = 1, su_url_hash = ''https://scam.example'',
                    su_original_url = ''https://scam.example'', su_domain = ''scam.example'',
                    su_threat_type = ''user_reported'', su_confidence = 0.7,
                    su_source = ''user_report'', su_tags = None, su_first_seen = 0,
                    su_last_seen = 0, su_report_count = 2, su_is_active = True\<rparr>],
      user_reports = [\<lparr>ur_id = 1, ur_url_hash = ''https://scam.example'',
                       ur_original_url = ''https://scam.example'',
                       ur_description = UserText ''fake login'', ur_user_id = None,
                       ur_report_type = ''scam'', ur_status = ''pending'', ur_created_at = 0\<rparr>],
      detection_history = []\<rparr>"
  by (simp add: seeded_state_def add_user_report_def hash_scam_example urlparse_netloc_eval
      insert_or_ignore_def bump_rows_def empty_db_def test_world_fields Let_def)

lemma seeded_active_record:
  "active_record test_world (store seeded_state) ''https://scam.example'' =
     Some \<lparr>su_id = 1, su_url_hash = ''https://scam.example'',
            su_original_url = ''https://scam.example'', su_domain = ''scam.example'',
            su_threat_type = ''user_reported'', su_confidence = 0.7,
            su_source = ''user_report'', su_tags = None, su_first_seen = 0,
            su_last_seen = 0, su_report_count = 2, su_is_active = True\<rparr>"
  by (simp add: active_record_def seeded_store hash_scam_example)

lemma active_record_lookup:
  assumes "active_record w db n = Some row"
  shows "check_url_in_database w db n =
     (Some \<lparr>hit_is_malicious = True, hit_url_hash = su_url_hash row,
             hit_original_url = su_original_url row, hit_domain = su_domain row,
             hit_threat_type = su_threat_type row, hit_confidence = su_confidence row,
             hit_source = su_source row,
             hit_tags = (case su_tags row of Some ts \<Rightarrow> ts | None \<Rightarrow> []),
             hit_first_seen = su_first_seen row, hit_report_count = su_report_count row,
             hit_detection_method = ''local_database''\<rparr>,
      db\<lparr>scam_urls := bump_rows w (hash_url w n) (scam_urls db)\<rparr>)"
  using assms
  by (auto simp: active_record_def check_url_in_database_def Let_def split: if_splits)

lemma active_record_connectable: "active_record w db n = Some row \<Longrightarrow> connectable db"
  by (simp add: active_record_def split: if_splits)

text \<open>
  Claim C1. When the store can be read and holds an active record for the normalised URL,
  \<open>analyze_url\<close> answers threat level \<open>critical\<close>, suspicious, the single detection method
  \<open>local_database\<close> and the confidence of the record capped at 1. The tier is terminal:
  one detection event is logged and none of URLhaus URL check, URLhaus host check,
  PhishTank check, pattern, structure and regional analyser has been called.
\<close>

theorem local_database_hit:
  assumes n: "normalize_url (ip_address w) url = Inr n"
    and row: "active_record w (store st) n = Some row"
  shows "\<exists>r st'. analyze_url w st url = (Results r, st') \<and>
      res_url r = n \<and> threat_level r = Critical \<and> is_suspicious r \<and>
      detection_methods r = [''local_database''] \<and>
      confidence r = min (su_confidence row) 1.0 \<and>
      message r = Some CriticalOther \<and>
      invoked st' = invoked st \<and>
      detection_history (store st') = detection_history (store st) @
        [\<lparr>dh_id = length (detection_history (store st)) + 1, dh_url_hash = hash_url w n,
          dh_original_url = n, dh_threat_level = Critical, dh_confidence = su_confidence row,
          dh_detection_methods = [''local_database''], dh_is_suspicious = True,
          dh_response_time_ms = None, dh_timestamp = clock w\<rparr>]"
proof -
  note c = active_record_lookup [OF row]
  have conn: "connectable (store st)" using active_record_connectable [OF row] .
  show ?thesis
    unfolding analyze_url_def analyze_body_unfold [OF n c]
    using conn
    by (simp add: local_database_path_def local_database_tier_def initial_results_def
        log_results_def log_detection_def finish_def generate_response_message_def Let_def)
qed

theorem local_database_hit_witness:
  "verdict_detection_methods (fst (analyze_url test_world seeded_state ''https://scam.example'')) =
     Some [''local_database''] \<and>
   verdict_confidence (fst (analyze_url test_world seeded_state ''https://scam.example'')) = Some 0.7 \<and>
   invoked (snd (analyze_url test_world seeded_state ''https://scam.example'')) = []"
proof -
  have n: "normalize_url (ip_address test_world) ''https://scam.example'' = Inr ''https://scam.example''"
    by (simp add: test_world_fields normalize_scam_example)
  show ?thesis
    using local_database_hit [OF n seeded_active_record]
    by (auto simp: seeded_state_def)
qed


section \<open>Bounds of the confidence\<close>

lemma tier_confidence_mono:
  "confidence r \<le> confidence (host_tier h r)"
  "confidence r \<le> confidence (phish_tank_tier pt r)"
  "confidence r \<le> confidence (pattern_tier ps r)"
  "confidence r \<le> confidence (structure_tier ss r)"
  "confidence r \<le> confidence (myanmar_tier ms r)"
  "confidence r \<le> confidence (urlhaus_tier u r)"
  "confidence r \<le> confidence (urlhaus_host_extra h r)"
  by (simp_all add: host_tier_def phish_tank_tier_def pattern_tier_def structure_tier_def
      myanmar_tier_def urlhaus_tier_def urlhaus_host_extra_def Let_def)

lemma fallback_confidence_nonneg:
  "0 \<le> confidence (last (fallback_results w n p ps ss))"
proof -
  define r0 where "r0 = initial_results w n"
  define r1 where "r1 = (if netloc p \<noteq> [] then host_tier (check_urlhaus_host w (netloc p)) r0 else r0)"
  define r2 where "r2 = phish_tank_tier (check_phish_tank w n) r1"
  define r3 where "r3 = pattern_tier ps r2"
  define r4 where "r4 = structure_tier ss r3"
  define r5 where "r5 = myanmar_tier (detect_myanmar_scams n) r4"
  have "confidence r0 = 0" by (simp add: r0_def initial_results_def)
  moreover have "confidence r0 \<le> confidence r1" by (simp add: r1_def tier_confidence_mono)
  moreover have "confidence r1 \<le> confidence r2" by (simp add: r2_def tier_confidence_mono)
  moreover have "confidence r2 \<le> confidence r3" by (simp add: r3_def tier_confidence_mono)
  moreover have "confidence r3 \<le> confidence r4" by (simp add: r4_def tier_confidence_mono)
  moreover have "confidence r4 \<le> confidence r5" by (simp add: r5_def tier_confidence_mono)
  moreover have "last (fallback_results w n p ps ss) = r5"
    by (simp add: fallback_results_def Let_def r0_def r1_def r2_def r3_def r4_def r5_def)
  ultimately show ?thesis by simp
qed

lemma check_url_in_database_hit_nonneg:
  assumes "\<forall>row \<in> set (scam_urls db). 0 \<le> su_confidence row"
    and "check_url_in_database w db n = (Some hit, db1)"
  shows "0 \<le> hit_confidence hit"
proof -
  from assms(2) obtain row where f: "find (\<lambda>r. su_url_hash r = hash_url w n \<and> su_is_active r) (scam_urls db) = Some row"
    and h: "hit_confidence hit = su_confidence row"
    by (auto simp: check_url_in_database_def Let_def split: if_splits option.splits)
  from f have "row \<in> set (scam_urls db)"
    by (auto simp: find_Some_iff)
  then show ?thesis using assms(1) h by simp
qed

text \<open>
  Claim C4, as stated, fails on the error path: for the input \<open>[\<close> the normaliser raises
  and the verdict that \<open>analyze_url\<close> answers has no \<open>confidence\<close> at all.
\<close>

theorem error_verdict_has_no_confidence:
  "verdict_confidence (fst (analyze_url test_world empty_state ''['')) = None"
  using analyze_body_bracket by (cases "analyze_body test_world empty_state ''[''") (auto simp: analyze_url_def)

text \<open>
  Claim C4, amended. Whenever the verdict carries a confidence, that is on the three paths
  that return \<open>results\<close>, the confidence lies in the unit interval, whichever tiers fired,
  provided no stored record has a negative confidence (the source stores 0.9 and 0.7 only).
\<close>

theorem confidence_in_unit_interval:
  assumes inv: "\<forall>row \<in> set (scam_urls (store st)). 0 \<le> su_confidence row"
    and v: "verdict_confidence (fst (analyze_url w st url)) = Some c"
  shows "0 \<le> c \<and> c \<le> 1"
proof (cases "normalize_url (ip_address w) url")
  case (Inl e)
  then have "fst (analyze_url w st url) = ErrorResult \<lparr>err_url = url, err_is_suspicious = False,
      err_threat_level = Unknown, err_error = e, err_message = UnableToAnalyze\<rparr>"
    by (simp add: analyze_url_def analyze_body_Inl)
  then show ?thesis using v by simp
next
  case (Inr n)
  obtain p ps ss where i: "urlparse (ip_address w) n = Inr p" "pattern_analysis n = Inr ps"
      "analyze_url_structure (ip_address w) n = Inr ss"
    using analysis_inputs [OF Inr] by blast
  obtain dr db1 where ch: "check_url_in_database w (store st) n = (dr, db1)"
    by (cases "check_url_in_database w (store st) n") auto
  note u = analyze_body_unfold [OF Inr ch]
  have fstau: "fst (analyze_url w st url) =
      (case fst (analyze_body w st url) of Inr r \<Rightarrow> Results r
       | Inl e \<Rightarrow> ErrorResult \<lparr>err_url = url, err_is_suspicious = False,
            err_threat_level = Unknown, err_error = e, err_message = UnableToAnalyze\<rparr>)"
    by (cases "analyze_body w st url") (auto simp: analyze_url_def split: sum.splits)
  show ?thesis
  proof (cases dr)
    case (Some hit)
    have "0 \<le> hit_confidence hit"
      using check_url_in_database_hit_nonneg [OF inv] ch Some by blast
    then show ?thesis
      using v unfolding fstau u Some
      by (auto simp: local_database_path_def local_database_tier_def initial_results_def Let_def)
  next
    case None
    show ?thesis
    proof (cases "is_malicious (check_urlhaus w n)")
      case True
      then show ?thesis
        using v unfolding fstau u None
        by (auto simp: urlhaus_path_result [OF i(1)] urlhaus_tier_def urlhaus_host_extra_def
            initial_results_def Let_def)
    next
      case False
      then show ?thesis
        using v fallback_confidence_nonneg [of w n p ps ss] unfolding fstau u None
        by (auto simp: fallback_path_result [OF i])
    qed
  qed
qed

lemma seeded_analysis_confidence:
  "verdict_confidence (fst (analyze_url test_world seeded_state ''https://scam.example'')) = Some 0.7"
proof -
  have n: "normalize_url (ip_address test_world) ''https://scam.example'' = Inr ''https://scam.example''"
    by (simp add: test_world_fields normalize_scam_example)
  show ?thesis
    unfolding analyze_url_def analyze_body_unfold [OF n active_record_lookup [OF seeded_active_record]]
    by (simp add: local_database_path_def local_database_tier_def initial_results_def Let_def)
qed

theorem confidence_in_unit_interval_witness:
  "verdict_confidence (fst (analyze_url test_world seeded_state ''https://scam.example'')) = Some 0.7 \<and>
   (0::real) \<le> 0.7 \<and> (0.7::real) \<le> 1"
proof -
  have inv: "\<forall>row \<in> set (scam_urls (store seeded_state)). 0 \<le> su_confidence row"
    by (simp add: seeded_store)
  show ?thesis
    using confidence_in_unit_interval [OF inv seeded_analysis_confidence] seeded_analysis_confidence
    by simp
qed


section \<open>Escalation of the threat level\<close>

lemmas tier_defs = host_tier_def phish_tank_tier_def pattern_tier_def structure_tier_def
  myanmar_tier_def urlhaus_tier_def urlhaus_host_extra_def local_database_tier_def
  initial_results_def


lemma tier_levels:
  "threat_level (host_tier h r) = (if host_malicious h then High else threat_level r)"
  "threat_level (phish_tank_tier pt r) =
     (if is_phishing pt \<and> (threat_level r = Safe \<or> threat_level r = High) then Critical
      else threat_level r)"
  "threat_level (pattern_tier ps r) =
     (if ps > 0.3 \<and> threat_level r = Safe then (if ps > 0.7 then High else Medium)
      else threat_level r)"
  "threat_level (structure_tier ss r) =
     (if ss > 0.6 \<and> threat_level r = Safe then Medium else threat_level r)"
  "threat_level (myanmar_tier ms r) =
     (if ms > 0.7 \<and> (threat_level r = Safe \<or> threat_level r = Medium) then High
      else threat_level r)"
  "threat_level (urlhaus_tier u r) = Critical"
  "threat_level (urlhaus_host_extra h r) = threat_level r"
  "threat_level (local_database_tier hit r) = Critical"
  by (simp_all add: tier_defs Let_def)

lemma tier_methods:
  "detection_methods (host_tier h r) =
     detection_methods r @ (if host_malicious h then [''urlhaus_host''] else [])"
  "detection_methods (phish_tank_tier pt r) =
     detection_methods r @ (if is_phishing pt then [''phish_tank''] else [])"
  "detection_methods (pattern_tier ps r) =
     detection_methods r @ (if ps > 0.3 then [''pattern_analysis''] else [])"
  "detection_methods (structure_tier ss r) =
     detection_methods r @ (if ss > 0.6 then [''url_structure''] else [])"
  "detection_methods (myanmar_tier ms r) =
     detection_methods r @ (if ms > 0.7 then [''myanmar_specific''] else [])"
  "detection_methods (urlhaus_tier u r) = detection_methods r @ [''urlhaus'']"
  "detection_methods (urlhaus_host_extra h r) =
     detection_methods r @
       (if host_malicious h \<and> ''urlhaus_host'' \<notin> set (detection_methods r) then [''urlhaus_host'']
        else [])"
  "detection_methods (local_database_tier hit r) = detection_methods r @ [''local_database'']"
  by (simp_all add: tier_defs Let_def)

lemma severity_simps:
  "severity ps ''local_database'' = Critical"
  "severity ps ''urlhaus'' = Critical"
  "severity ps ''urlhaus_host'' = High"
  "severity ps ''phish_tank'' = Critical"
  "severity ps ''pattern_analysis'' = (if ps > 0.7 then High else Medium)"
  "severity ps ''url_structure'' = Medium"
  "severity ps ''myanmar_specific'' = High"
  by (simp_all add: severity_def)

lemma fallback_levels:
  "sorted (map (\<lambda>r. rank (threat_level r)) (fallback_results w n p ps ss)) \<and>
   threat_level (last (fallback_results w n p ps ss)) =
     fold max_level (map (severity ps) (detection_methods (last (fallback_results w n p ps ss)))) Safe"
proof -
  define r0 where "r0 = initial_results w n"
  define b1 where "b1 = (netloc p \<noteq> [] \<and> host_malicious (check_urlhaus_host w (netloc p)))"
  define r1 where "r1 = (if netloc p \<noteq> [] then host_tier (check_urlhaus_host w (netloc p)) r0 else r0)"
  define b2 where "b2 = is_phishing (check_phish_tank w n)"
  define r2 where "r2 = phish_tank_tier (check_phish_tank w n) r1"
  define r3 where "r3 = pattern_tier ps r2"
  define r4 where "r4 = structure_tier ss r3"
  define b5 where "b5 = (detect_myanmar_scams n > 0.7)"
  define r5 where "r5 = myanmar_tier (detect_myanmar_scams n) r4"
  have fr: "fallback_results w n p ps ss = [r0, r1, r2, r3, r4, r5]"
    by (simp add: fallback_results_def Let_def r0_def r1_def r2_def r3_def r4_def r5_def)
  have l0: "threat_level r0 = Safe" and m0: "detection_methods r0 = []"
    by (simp_all add: r0_def initial_results_def)
  have l1: "threat_level r1 = (if b1 then High else Safe)"
    and m1: "detection_methods r1 = (if b1 then [''urlhaus_host''] else [])"
    by (simp_all add: r1_def b1_def tier_levels tier_methods l0 m0)
  have l2: "threat_level r2 = (if b2 then Critical else threat_level r1)"
    and m2: "detection_methods r2 = detection_methods r1 @ (if b2 then [''phish_tank''] else [])"
    by (simp_all add: r2_def b2_def tier_levels tier_methods l1)
  have l3: "threat_level r3 = (if ps > 0.3 \<and> threat_level r2 = Safe then (if ps > 0.7 then High else Medium)
      else threat_level r2)"
    and m3: "detection_methods r3 = detection_methods r2 @ (if ps > 0.3 then [''pattern_analysis''] else [])"
    by (simp_all add: r3_def tier_levels tier_methods)
  have l4: "threat_level r4 = (if ss > 0.6 \<and> threat_level r3 = Safe then Medium else threat_level r3)"
    and m4: "detection_methods r4 = detection_methods r3 @ (if ss > 0.6 then [''url_structure''] else [])"
    by (simp_all add: r4_def tier_levels tier_methods)
  have l5: "threat_level r5 = (if b5 \<and> (threat_level r4 = Safe \<or> threat_level r4 = Medium) then High
      else threat_level r4)"
    and m5: "detection_methods r5 = detection_methods r4 @ (if b5 then [''myanmar_specific''] else [])"
    by (simp_all add: r5_def b5_def tier_levels tier_methods)
  have s: "sorted (map (\<lambda>r. rank (threat_level r)) [r0, r1, r2, r3, r4, r5])"
    by (cases b1; cases b2; cases "ps > 0.3"; cases "ps > 0.7"; cases "ss > 0.6"; cases b5)
       (simp_all add: l0 l1 l2 l3 l4 l5)
  have m: "threat_level r5 = fold max_level (map (severity ps) (detection_methods r5)) Safe"
    by (cases b1; cases b2; cases "ps > 0.3"; cases "ps > 0.7"; cases "ss > 0.6"; cases b5)
       (simp_all add: l0 l1 l2 l3 l4 l5 m0 m1 m2 m3 m4 m5 severity_simps max_level_def)
  show ?thesis using s m by (simp add: fr)
qed

lemma analyze_url_fst:
  "fst (analyze_url w st url) =
      (case fst (analyze_body w st url) of Inr r \<Rightarrow> Results r
       | Inl e \<Rightarrow> ErrorResult \<lparr>err_url = url, err_is_suspicious = False,
            err_threat_level = Unknown, err_error = e, err_message = UnableToAnalyze\<rparr>)"
  by (cases "analyze_body w st url") (auto simp: analyze_url_def split: sum.splits)

text \<open>
  Claim C3. In one run the threat level never goes down: along the values of \<open>results\<close>
  after each tier the rank of the level is non-decreasing, and the level of the verdict is
  the greatest severity among the tiers that fired, those whose name is in
  \<open>detection_methods\<close>, starting from \<open>safe\<close>.
\<close>

theorem threat_level_escalates:
  assumes n: "normalize_url (ip_address w) url = Inr n"
  shows "\<exists>p ps ss r.
           urlparse (ip_address w) n = Inr p \<and> pattern_analysis n = Inr ps \<and>
           analyze_url_structure (ip_address w) n = Inr ss \<and>
           fst (analyze_url w st url) = Results r \<and>
           r = finish (last (tier_trace w (store st) n p ps ss)) \<and>
           sorted (map (\<lambda>r. rank (threat_level r)) (tier_trace w (store st) n p ps ss)) \<and>
           threat_level r = fold max_level (map (severity ps) (detection_methods r)) Safe"
proof -
  obtain p ps ss where i: "urlparse (ip_address w) n = Inr p" "pattern_analysis n = Inr ps"
      "analyze_url_structure (ip_address w) n = Inr ss"
    using analysis_inputs [OF n] by blast
  obtain dr db1 where ch: "check_url_in_database w (store st) n = (dr, db1)"
    by (cases "check_url_in_database w (store st) n") auto
  then have dr: "fst (check_url_in_database w (store st) n) = dr" by simp
  note u = analyze_body_unfold [OF n ch]
  define r0 where "r0 = initial_results w n"
  have l0: "threat_level r0 = Safe" and m0: "detection_methods r0 = []"
    by (simp_all add: r0_def initial_results_def)
  have "fst (analyze_url w st url) = Results (finish (last (tier_trace w (store st) n p ps ss))) \<and>
        sorted (map (\<lambda>r. rank (threat_level r)) (tier_trace w (store st) n p ps ss)) \<and>
        threat_level (last (tier_trace w (store st) n p ps ss)) =
          fold max_level (map (severity ps) (detection_methods (last (tier_trace w (store st) n p ps ss)))) Safe"
  proof (cases dr)
    case (Some hit)
    have t: "tier_trace w (store st) n p ps ss = [r0, local_database_tier hit r0]"
      by (simp add: tier_trace_def dr Some r0_def Let_def)
    show ?thesis
      unfolding analyze_url_fst u t Some
      by (simp add: local_database_path_def Let_def r0_def [symmetric] tier_levels tier_methods
          l0 m0 severity_simps max_level_def)
  next
    case None
    show ?thesis
    proof (cases "is_malicious (check_urlhaus w n)")
      case True
      define r1 where "r1 = urlhaus_tier (check_urlhaus w n) r0"
      have l1: "threat_level r1 = Critical" and m1: "detection_methods r1 = [''urlhaus'']"
        by (simp_all add: r1_def tier_levels tier_methods m0)
      have t: "tier_trace w (store st) n p ps ss =
          (if netloc p \<noteq> [] then [r0, r1, urlhaus_host_extra (check_urlhaus_host w (netloc p)) r1]
           else [r0, r1])"
        by (simp add: tier_trace_def dr None True r0_def r1_def Let_def)
      show ?thesis
        unfolding analyze_url_fst u t None
        using True
        by (simp add: urlhaus_path_result [OF i(1)] r0_def [symmetric] r1_def [symmetric]
            tier_levels tier_methods l0 l1 m1 severity_simps max_level_def)
    next
      case False
      have t: "tier_trace w (store st) n p ps ss = fallback_results w n p ps ss"
        by (simp add: tier_trace_def dr None False Let_def)
      show ?thesis
        unfolding analyze_url_fst u t None
        using False fallback_levels [of w n p ps ss]
        by (simp add: fallback_path_result [OF i])
    qed
  qed
  then show ?thesis using i by auto
qed

lemma normalize_bitly: "normalize_url no_ip ''bit.ly/x'' = Inr ''https://bit.ly/x''"
  by (simp add: parse_defs)

theorem threat_level_escalates_witness:
  "\<exists>p ps ss r.
     urlparse no_ip ''https://bit.ly/x'' = Inr p \<and> pattern_analysis ''https://bit.ly/x'' = Inr ps \<and>
     analyze_url_structure no_ip ''https://bit.ly/x'' = Inr ss \<and>
     fst (analyze_url test_world empty_state ''bit.ly/x'') = Results r \<and>
     r = finish (last (tier_trace test_world empty_db ''https://bit.ly/x'' p ps ss)) \<and>
     sorted (map (\<lambda>r. rank (threat_level r)) (tier_trace test_world empty_db ''https://bit.ly/x'' p ps ss)) \<and>
     threat_level r = fold max_level (map (severity ps) (detection_methods r)) Safe"
proof -
  have n: "normalize_url (ip_address test_world) ''bit.ly/x'' = Inr ''https://bit.ly/x''"
    by (simp add: test_world_fields normalize_bitly)
  show ?thesis
    using threat_level_escalates [OF n, of empty_state]
    by (simp add: test_world_fields empty_state_def)
qed


section \<open>Write-through of a URLhaus detection\<close>

lemma find_append_none: "\<forall>r \<in> set xs. \<not> P r \<Longrightarrow> find P (xs @ ys) = find P ys"
  by (induction xs) auto

lemma unknown_not_found:
  assumes "\<not> known w db n"
  shows "\<forall>r \<in> set (scam_urls db). \<not> (su_url_hash r = hash_url w n \<and> su_is_active r)"
    and "\<forall>r \<in> set (scam_urls db). su_url_hash r \<noteq> hash_url w n"
  using assms by (auto simp: known_def list_ex_iff)

lemma unknown_lookup:
  assumes "\<not> known w db n"
  shows "check_url_in_database w db n = (None, db)"
proof -
  have "find (\<lambda>r. su_url_hash r = hash_url w n \<and> su_is_active r) (scam_urls db) = None"
    using unknown_not_found(1) [OF assms] by (simp add: find_None_iff)
  then show ?thesis by (simp add: check_url_in_database_def Let_def)
qed

lemma add_user_report_makes_active:
  assumes "connectable db" and "urlparse (ip_address w) url = Inr parsed" and "\<not> known w db url"
  shows "connectable (snd (add_user_report w db url d uid)) \<and>
         active_record w (snd (add_user_report w db url d uid)) url =
           Some \<lparr>su_id = length (scam_urls db) + 1, su_url_hash = hash_url w url,
                  su_original_url = url, su_domain = netloc parsed,
                  su_threat_type = ''user_reported'', su_confidence = 0.7,
                  su_source = ''user_report'', su_tags = None, su_first_seen = clock w,
                  su_last_seen = clock w, su_report_count = 2, su_is_active = True\<rparr>"
proof -
  have nb: "bump_rows w (hash_url w url) (scam_urls db) = scam_urls db"
    using unknown_not_found(2) [OF assms(3)] unfolding bump_rows_def
    by (induction "scam_urls db") (auto simp: map_idI)
  have nf: "\<And>ys. find (\<lambda>r. su_url_hash r = hash_url w url \<and> su_is_active r) (scam_urls db @ ys) =
      find (\<lambda>r. su_url_hash r = hash_url w url \<and> su_is_active r) ys"
    using unknown_not_found(1) [OF assms(3)] by (rule find_append_none)
  have "scam_urls (snd (add_user_report w db url d uid)) =
           scam_urls db @
             [\<lparr>su_id = length (scam_urls db) + 1, su_url_hash = hash_url w url, su_original_url = url,
               su_domain = netloc parsed, su_threat_type = ''user_reported'', su_confidence = 0.7,
               su_source = ''user_report'', su_tags = None, su_first_seen = clock w,
               su_last_seen = clock w, su_report_count = 2, su_is_active = True\<rparr>]"
    using assms nb
    by (simp add: add_user_report_def insert_or_ignore_def known_def Let_def bump_rows_def)
  moreover have "connectable (snd (add_user_report w db url d uid))"
    using assms by (simp add: add_user_report_def Let_def)
  ultimately show ?thesis
    by (simp add: active_record_def nf)
qed

lemma urlhaus_path_store:
  assumes "urlparse (ip_address w) n = Inr p"
  shows "scam_urls (store (snd (urlhaus_path w st n u r0))) =
           scam_urls (snd (add_user_report w (store st) n (DetectedByUrlhaus (uh_details u)) None)) \<and>
         connectable (store (snd (urlhaus_path w st n u r0))) =
           connectable (snd (add_user_report w (store st) n (DetectedByUrlhaus (uh_details u)) None))"
  using assms
  by (simp add: urlhaus_path_def log_results_def log_detection_def calls_def Let_def
      split: prod.splits)

lemma active_record_cong:
  assumes "scam_urls db' = scam_urls db" "connectable db' = connectable db" "sha256 w' = sha256 w"
  shows "active_record w' db' n = active_record w db n"
  using assms by (simp add: active_record_def hash_url_def Let_def)

lemma local_database_result:
  assumes n: "normalize_url (ip_address w) url = Inr n"
    and row: "active_record w (store st) n = Some row"
  shows "\<exists>r. fst (analyze_url w st url) = Results r \<and> threat_level r = Critical \<and>
           detection_methods r = [''local_database''] \<and> confidence r = min (su_confidence row) 1"
  unfolding analyze_url_fst analyze_body_unfold [OF n active_record_lookup [OF row]]
  by (simp add: local_database_path_def local_database_tier_def initial_results_def Let_def)

text \<open>
  Claim C9. When the URLhaus URL check reports the URL and the store, readable, has no
  record of it, the run answers \<open>critical\<close> with a confidence of at least 0.95 and stores
  the URL through \<open>add_user_report\<close>: the record has threat type \<open>user_reported\<close>, source
  \<open>user_report\<close> and confidence 0.7. The next run on the same URL, whatever the remote
  services answer then, stops at the local database tier with confidence 0.7.
\<close>

theorem urlhaus_write_through:
  assumes n: "normalize_url (ip_address w) url = Inr n"
    and conn: "connectable (store st)"
    and new: "\<not> known w (store st) n"
    and mal: "is_malicious (check_urlhaus w n)"
    and same: "sha256 w' = sha256 w" "ip_address w' = ip_address w"
  shows "\<exists>r1 r2 row.
     fst (analyze_url w st url) = Results r1 \<and> ''urlhaus'' \<in> set (detection_methods r1) \<and>
     threat_level r1 = Critical \<and> 0.95 \<le> confidence r1 \<and>
     active_record w' (store (snd (analyze_url w st url))) n = Some row \<and>
     su_threat_type row = ''user_reported'' \<and> su_source row = ''user_report'' \<and>
     su_confidence row = 0.7 \<and>
     fst (analyze_url w' (snd (analyze_url w st url)) url) = Results r2 \<and>
     detection_methods r2 = [''local_database''] \<and> threat_level r2 = Critical \<and>
     confidence r2 = 0.7"
proof -
  obtain p where p: "urlparse (ip_address w) n = Inr p"
    using normalize_url_reparse [OF n] by blast
  define u where "u = check_urlhaus w n"
  define st0 where "st0 = calls [CheckUrlhaus n] (st\<lparr>store := store st\<rparr>)"
  have st0: "store st0 = store st" by (simp add: st0_def calls_def)
  have body: "analyze_body w st url = urlhaus_path w st0 n u (initial_results w n)"
    unfolding analyze_body_unfold [OF n unknown_lookup [OF new]] using mal
    by (simp add: u_def st0_def)
  have snd1: "snd (analyze_url w st url) = snd (urlhaus_path w st0 n u (initial_results w n))"
    unfolding analyze_url_def body
    by (cases "urlhaus_path w st0 n u (initial_results w n)") (auto split: sum.splits)
  have r1: "fst (analyze_url w st url) =
      Results (finish (if netloc p \<noteq> []
                       then urlhaus_host_extra (check_urlhaus_host w (netloc p))
                              (urlhaus_tier u (initial_results w n))
                       else urlhaus_tier u (initial_results w n)))"
    unfolding analyze_url_fst body by (simp add: urlhaus_path_result [OF p])
  have c1: "''urlhaus'' \<in> set (detection_methods (finish (if netloc p \<noteq> []
                       then urlhaus_host_extra (check_urlhaus_host w (netloc p))
                              (urlhaus_tier u (initial_results w n))
                       else urlhaus_tier u (initial_results w n))))"
    by (simp add: tier_methods)
  have c2: "threat_level (finish (if netloc p \<noteq> []
                       then urlhaus_host_extra (check_urlhaus_host w (netloc p))
                              (urlhaus_tier u (initial_results w n))
                       else urlhaus_tier u (initial_results w n))) = Critical"
    by (simp add: tier_levels)
  have c3: "0.95 \<le> confidence (finish (if netloc p \<noteq> []
                       then urlhaus_host_extra (check_urlhaus_host w (netloc p))
                              (urlhaus_tier u (initial_results w n))
                       else urlhaus_tier u (initial_results w n)))"
    by (simp add: urlhaus_tier_def urlhaus_host_extra_def initial_results_def Let_def)
  define row where "row = \<lparr>su_id = length (scam_urls (store st)) + 1, su_url_hash = hash_url w n,
                  su_original_url = n, su_domain = netloc p,
                  su_threat_type = ''user_reported'', su_confidence = 0.7,
                  su_source = ''user_report'', su_tags = None, su_first_seen = clock w,
                  su_last_seen = clock w, su_report_count = 2, su_is_active = True\<rparr>"
  have a: "connectable (snd (add_user_report w (store st) n (DetectedByUrlhaus (uh_details u)) None)) \<and>
         active_record w (snd (add_user_report w (store st) n (DetectedByUrlhaus (uh_details u)) None)) n = Some row"
    unfolding row_def using add_user_report_makes_active [OF conn p new] by simp
  have ar: "active_record w' (store (snd (analyze_url w st url))) n = Some row"
  proof -
    have "active_record w' (store (snd (analyze_url w st url))) n =
          active_record w (snd (add_user_report w (store st) n (DetectedByUrlhaus (uh_details u)) None)) n"
      unfolding snd1 using urlhaus_path_store [OF p, of st0 u "initial_results w n"] same(1)
      by (intro active_record_cong) (simp_all add: st0)
    then show ?thesis using a by simp
  qed
  have n': "normalize_url (ip_address w') url = Inr n" using n same(2) by simp
  obtain r2 where r2: "fst (analyze_url w' (snd (analyze_url w st url)) url) = Results r2"
      "threat_level r2 = Critical" "detection_methods r2 = [''local_database'']"
      "confidence r2 = min (su_confidence row) 1"
    using local_database_result [OF n' ar] by blast
  have rowf: "su_threat_type row = ''user_reported''" "su_source row = ''user_report''"
      "su_confidence row = 0.7"
    by (simp_all add: row_def)
  have "confidence r2 = 0.7" using r2(4) rowf(3) by simp
  then show ?thesis
    using r1 c1 c2 c3 ar rowf r2 by blast
qed

lemma normalize_evil:
  "normalize_url no_ip ''https://evil.example/x'' = Inr ''https://evil.example/x''"
  by (simp add: parse_defs)

lemma urlhaus_world_fields:
  "ip_address urlhaus_world = no_ip" "clock urlhaus_world = 0"
  "auth_key urlhaus_world = Some ''key''" "sha256 urlhaus_world s = s"
  "urlhaus_url_post urlhaus_world u =
     Response 200 (Some \<lparr>uj_query_status = Some ''ok'', uj_urls = None\<rparr>)"
  by (simp_all add: urlhaus_world_def)

lemma urlhaus_world_malicious: "is_malicious (check_urlhaus urlhaus_world u)"
  by (simp add: check_urlhaus_def configured_def urlhaus_world_fields detected_def)

theorem urlhaus_write_through_witness:
  "\<exists>r1 r2 row.
     fst (analyze_url urlhaus_world empty_state ''https://evil.example/x'') = Results r1 \<and>
     ''urlhaus'' \<in> set (detection_methods r1) \<and>
     threat_level r1 = Critical \<and> 0.95 \<le> confidence r1 \<and>
     active_record urlhaus_world
       (store (snd (analyze_url urlhaus_world empty_state ''https://evil.example/x'')))
       ''https://evil.example/x'' = Some row \<and>
     su_threat_type row = ''user_reported'' \<and> su_source row = ''user_report'' \<and>
     su_confidence row = 0.7 \<and>
     fst (analyze_url urlhaus_world
            (snd (analyze_url urlhaus_world empty_state ''https://evil.example/x''))
            ''https://evil.example/x'') = Results r2 \<and>
     detection_methods r2 = [''local_database''] \<and> threat_level r2 = Critical \<and>
     confidence r2 = 0.7"
proof -
  have n: "normalize_url (ip_address urlhaus_world) ''https://evil.example/x'' =
      Inr ''https://evil.example/x''"
    by (simp add: urlhaus_world_fields normalize_evil)
  have conn: "connectable (store empty_state)"
    by (simp add: empty_state_def empty_db_def)
  have new: "\<not> known urlhaus_world (store empty_state) ''https://evil.example/x''"
    by (simp add: known_def empty_state_def empty_db_def)
  show ?thesis
    by (rule urlhaus_write_through [OF n conn new urlhaus_world_malicious refl refl])
qed


section \<open>The structure analyser\<close>

lemma length_split_on: "length (split_on d s) = length (filter (\<lambda>c. c = d) s) + 1"
  by (induction s) (auto split: list.splits)

lemma dot_not_digit: "\<not> ascii_digit CHR ''.''"
  by (simp add: ascii_digit_def)

lemma digits_then_iff:
  "digits_then k s = (\<exists>a r. s = a @ r \<and> a \<noteq> [] \<and> list_all ascii_digit a \<and>
                        (r = [] \<or> \<not> ascii_digit (hd r)) \<and> k r)"
proof
  assume "digits_then k s"
  then have "takeWhile ascii_digit s \<noteq> []" "k (dropWhile ascii_digit s)"
    by (simp_all add: digits_then_def)
  moreover have "s = takeWhile ascii_digit s @ dropWhile ascii_digit s" by simp
  moreover have "list_all ascii_digit (takeWhile ascii_digit s)"
    by (simp add: list_all_iff) (meson set_takeWhileD)
  moreover have "dropWhile ascii_digit s = [] \<or> \<not> ascii_digit (hd (dropWhile ascii_digit s))"
    using hd_dropWhile [of ascii_digit s] by auto
  ultimately show "\<exists>a r. s = a @ r \<and> a \<noteq> [] \<and> list_all ascii_digit a \<and>
                        (r = [] \<or> \<not> ascii_digit (hd r)) \<and> k r"
    by blast
next
  assume "\<exists>a r. s = a @ r \<and> a \<noteq> [] \<and> list_all ascii_digit a \<and>
                        (r = [] \<or> \<not> ascii_digit (hd r)) \<and> k r"
  then obtain a r where s: "s = a @ r" and a: "a \<noteq> []" "list_all ascii_digit a"
    and r: "r = [] \<or> \<not> ascii_digit (hd r)" and k: "k r" by blast
  have tr: "takeWhile ascii_digit r = []" using r by (cases r) auto
  have dr: "dropWhile ascii_digit r = r" using r by (cases r) auto
  have "takeWhile ascii_digit s = a"
    using a(2) tr by (simp add: s list_all_iff)
  moreover have "dropWhile ascii_digit s = r"
    using a(2) dr by (simp add: s list_all_iff)
  ultimately show "digits_then k s" using a(1) k by (simp add: digits_then_def)
qed

lemma dot_then_iff: "dot_then k s = (\<exists>r. s = CHR ''.'' # r \<and> k r)"
  by (cases s) (auto simp: dot_then_def startswith_def)

lemma digits_then_prefix:
  assumes "a \<noteq> []" "list_all ascii_digit a" "k (dropWhile ascii_digit r)"
  shows "digits_then k (a @ r)"
proof -
  have "takeWhile ascii_digit (a @ r) = a @ takeWhile ascii_digit r"
    using assms(2) by (simp add: list_all_iff)
  moreover have "dropWhile ascii_digit (a @ r) = dropWhile ascii_digit r"
    using assms(2) by (simp add: list_all_iff)
  ultimately show ?thesis using assms(1,3) by (simp add: digits_then_def)
qed

lemma digits_then_dot:
  assumes "a \<noteq> []" "list_all ascii_digit a" "k r"
  shows "digits_then (dot_then k) (a @ CHR ''.'' # r)"
  using assms by (intro digits_then_prefix) (simp_all add: dot_not_digit dot_then_def startswith_def)

lemma re_match_ip_iff: "re_match_ip s = begins_with_digit_runs s"
proof
  assume "re_match_ip s"
  then obtain a r1 where 1: "s = a @ r1" "a \<noteq> []" "list_all ascii_digit a"
      and k1: "dot_then (digits_then (dot_then (digits_then (dot_then (digits_then (\<lambda>r. True)))))) r1"
    unfolding re_match_ip_def digits_then_iff [of _ s] by blast
  from k1 obtain r2 where 2: "r1 = CHR ''.'' # r2"
      and k2: "digits_then (dot_then (digits_then (dot_then (digits_then (\<lambda>r. True))))) r2"
    unfolding dot_then_iff by blast
  from k2 obtain b r3 where 3: "r2 = b @ r3" "b \<noteq> []" "list_all ascii_digit b"
      and k3: "dot_then (digits_then (dot_then (digits_then (\<lambda>r. True)))) r3"
    unfolding digits_then_iff [of _ r2] by blast
  from k3 obtain r4 where 4: "r3 = CHR ''.'' # r4"
      and k4: "digits_then (dot_then (digits_then (\<lambda>r. True))) r4"
    unfolding dot_then_iff by blast
  from k4 obtain c r5 where 5: "r4 = c @ r5" "c \<noteq> []" "list_all ascii_digit c"
      and k5: "dot_then (digits_then (\<lambda>r. True)) r5"
    unfolding digits_then_iff [of _ r4] by blast
  from k5 obtain r6 where 6: "r5 = CHR ''.'' # r6" and k6: "digits_then (\<lambda>r. True) r6"
    unfolding dot_then_iff by blast
  from k6 obtain d r7 where 7: "r6 = d @ r7" "d \<noteq> []" "list_all ascii_digit d"
    unfolding digits_then_iff [of _ r6] by blast
  have "s = a @ ''.'' @ b @ ''.'' @ c @ ''.'' @ d @ r7"
    by (simp add: 1 2 3 4 5 6 7)
  then show "begins_with_digit_runs s"
    unfolding begins_with_digit_runs_def using 1 3 5 7 by blast
next
  assume "begins_with_digit_runs s"
  then obtain a b c d rest where s: "s = a @ ''.'' @ b @ ''.'' @ c @ ''.'' @ d @ rest"
    and ne: "a \<noteq> []" "b \<noteq> []" "c \<noteq> []" "d \<noteq> []"
    and dg: "list_all ascii_digit a" "list_all ascii_digit b" "list_all ascii_digit c"
      "list_all ascii_digit d"
    unfolding begins_with_digit_runs_def by blast
  have k4: "digits_then (\<lambda>r. True) (d @ rest)"
    using ne(4) dg(4) by (intro digits_then_prefix) simp_all
  have k3: "digits_then (dot_then (digits_then (\<lambda>r. True))) (c @ CHR ''.'' # d @ rest)"
    by (rule digits_then_dot [where k = "digits_then (\<lambda>r. True)", OF ne(3) dg(3) k4])
  have k2: "digits_then (dot_then (digits_then (dot_then (digits_then (\<lambda>r. True)))))
      (b @ CHR ''.'' # c @ CHR ''.'' # d @ rest)"
    by (rule digits_then_dot [where k = "digits_then (dot_then (digits_then (\<lambda>r. True)))",
          OF ne(2) dg(2) k3])
  have "digits_then (dot_then (digits_then (dot_then (digits_then (dot_then (digits_then (\<lambda>r. True)))))))
      (a @ CHR ''.'' # b @ CHR ''.'' # c @ CHR ''.'' # d @ rest)"
    by (rule digits_then_dot
          [where k = "digits_then (dot_then (digits_then (dot_then (digits_then (\<lambda>r. True)))))",
           OF ne(1) dg(1) k2])
  then show "re_match_ip s" by (simp add: re_match_ip_def s)
qed

lemma contains_iff: "contains s p = (\<exists>a b. s = a @ p @ b)"
proof (induction s)
  case Nil
  then show ?case by auto
next
  case (Cons c cs)
  have sw: "startswith (c # cs) p = (\<exists>b. c # cs = p @ b)"
    unfolding startswith_def
    by (metis append_eq_conv_conj)
  show ?case
  proof
    assume "contains (c # cs) p"
    then consider "startswith (c # cs) p" | "contains cs p" by auto
    then show "\<exists>a b. c # cs = a @ p @ b"
    proof cases
      case 1
      then obtain b where "c # cs = p @ b" using sw by blast
      then have "c # cs = [] @ p @ b" by simp
      then show ?thesis by blast
    next
      case 2
      then obtain a b where "cs = a @ p @ b" using Cons.IH by blast
      then have "c # cs = (c # a) @ p @ b" by simp
      then show ?thesis by blast
    qed
  next
    assume "\<exists>a b. c # cs = a @ p @ b"
    then obtain a b where ab: "c # cs = a @ p @ b" by blast
    show "contains (c # cs) p"
    proof (cases a)
      case Nil
      then have "startswith (c # cs) p" using ab sw by auto
      then show ?thesis by simp
    next
      case (Cons x xs)
      then have "cs = xs @ p @ b" using ab by simp
      then have "contains cs p" using Cons.IH by blast
      then show ?thesis by simp
    qed
  qed
qed

lemma urlparse_ip_like:
  "urlparse ip ''http://1.2.3.4x/'' =
     Inr \<lparr>scheme = ''http'', netloc = ''1.2.3.4x'', path = ''/'', params = [], query = [], fragment = []\<rparr>"
  by (simp add: parse_defs)

lemma urlparse_tld_inside:
  "urlparse ip ''http://a.tkb.com/'' =
     Inr \<lparr>scheme = ''http'', netloc = ''a.tkb.com'', path = ''/'', params = [], query = [], fragment = []\<rparr>"
  by (simp add: parse_defs)

lemma structure_ip_like: "analyze_url_structure ip ''http://1.2.3.4x/'' = Inr 0.4"
  by (simp add: analyze_url_structure_def urlparse_ip_like re_match_ip_def digits_then_def
      dot_then_def startswith_def ascii_digit_def suspicious_tlds_def Let_def)

lemma structure_tld_inside: "analyze_url_structure ip ''http://a.tkb.com/'' = Inr 0.3"
  by (simp add: analyze_url_structure_def urlparse_tld_inside re_match_ip_def digits_then_def
      dot_then_def startswith_def ascii_digit_def suspicious_tlds_def Let_def)

text \<open>
  What the source computes, for every URL: where \<open>urlparse\<close> accepts the URL (it raises
  \<open>ValueError\<close> otherwise), the sum, clamped to 1, of 0.4 if the network location begins
  with four runs of digits separated by dots, 0.2 if it is longer than 50 characters, 0.3 if
  one of \<open>.tk\<close>, \<open>.ml\<close>, \<open>.ga\<close>, \<open>.cf\<close>, \<open>.gq\<close> occurs anywhere in it, and 0.2 if it has
  more than 3 dots; every score returned lies in the unit interval.
\<close>

lemma analyze_url_structure_computes:
  "analyze_url_structure ip url =
     (case urlparse ip url of
        Inl e \<Rightarrow> Inl e
      | Inr p \<Rightarrow>
          Inr (min 1 ((if begins_with_digit_runs (netloc p) then 0.4 else 0) +
                      (if length (netloc p) > 50 then 0.2 else 0) +
                      (if \<exists>tld \<in> set suspicious_tlds. \<exists>a b. netloc p = a @ tld @ b then 0.3 else 0) +
                      (if dots (netloc p) > 3 then 0.2 else 0)))) \<and>
   (\<forall>s. analyze_url_structure ip url = Inr s \<longrightarrow> 0 \<le> s \<and> s \<le> 1)"
proof -
  have tl: "\<And>nl. list_ex (contains nl) suspicious_tlds =
      (\<exists>tld \<in> set suspicious_tlds. \<exists>a b. nl = a @ tld @ b)"
    by (simp add: list_ex_iff contains_iff)
  have sd: "\<And>nl. (int (length (split_on CHR ''.'' nl)) - 1 > 3) = (dots nl > 3)"
    by (simp add: length_split_on dots_def)
  have eq: "analyze_url_structure ip url =
     (case urlparse ip url of
        Inl e \<Rightarrow> Inl e
      | Inr p \<Rightarrow>
          Inr (min 1 ((if begins_with_digit_runs (netloc p) then 0.4 else 0) +
                      (if length (netloc p) > 50 then 0.2 else 0) +
                      (if \<exists>tld \<in> set suspicious_tlds. \<exists>a b. netloc p = a @ tld @ b then 0.3 else 0) +
                      (if dots (netloc p) > 3 then 0.2 else 0))))"
    unfolding analyze_url_structure_def Let_def tl sd re_match_ip_iff
    by (cases "urlparse ip url") simp_all
  have "\<forall>s. analyze_url_structure ip url = Inr s \<longrightarrow> 0 \<le> s \<and> s \<le> 1"
    unfolding eq by (cases "urlparse ip url") auto
  then show ?thesis using eq by blast
qed

text \<open>
  Claim C8. The structure analyser is claimed to add 0.4 when the host is a literal dotted
  quad and 0.3 when the host has one of the top-level domains \<open>.tk\<close>, \<open>.ml\<close>, \<open>.ga\<close>, \<open>.cf\<close>,
  \<open>.gq\<close>, and the comments of the source say the same (\<open>Check for IP addresses instead of
  domains\<close>, \<open>Check for suspicious TLDs\<close>). The source matches its regular expression at
  the start of the network location only and looks for the top-level domains anywhere in
  it. On \<open>http://1.2.3.4x/\<close> the host \<open>1.2.3.4x\<close> is no dotted quad, is short, ends in no
  listed top-level domain and has three dots, so the claimed score is 0, and the source
  answers 0.4; on \<open>http://a.tkb.com/\<close> the host \<open>a.tkb.com\<close> has the top-level domain
  \<open>.com\<close>, the claimed score is 0, and the source answers 0.3.
\<close>

theorem analyze_url_structure_loose_tests:
  "urlparse ip ''http://1.2.3.4x/'' =
     Inr \<lparr>scheme = ''http'', netloc = ''1.2.3.4x'', path = ''/'', params = [], query = [], fragment = []\<rparr> \<and>
   analyze_url_structure ip ''http://1.2.3.4x/'' = Inr 0.4 \<and>
   \<not> dotted_quad ''1.2.3.4x'' \<and>
   spec_structure_score ''1.2.3.4x'' = 0 \<and>
   urlparse ip ''http://a.tkb.com/'' =
     Inr \<lparr>scheme = ''http'', netloc = ''a.tkb.com'', path = ''/'', params = [], query = [], fragment = []\<rparr> \<and>
   analyze_url_structure ip ''http://a.tkb.com/'' = Inr 0.3 \<and>
   \<not> list_ex (endswith ''a.tkb.com'') suspicious_tlds \<and>
   spec_structure_score ''a.tkb.com'' = 0"
  by (simp add: urlparse_ip_like structure_ip_like urlparse_tld_inside structure_tld_inside
      spec_structure_score_def dotted_quad_def endswith_def startswith_def suspicious_tlds_def
      dots_def ascii_digit_def Let_def)

theorem analyze_url_structure_loose_tests_witness:
  "analyze_url_structure no_ip ''http://1.2.3.4x/'' = Inr 0.4 \<and>
   spec_structure_score ''1.2.3.4x'' = 0 \<and>
   analyze_url_structure no_ip ''http://a.tkb.com/'' = Inr 0.3 \<and>
   spec_structure_score ''a.tkb.com'' = 0"
  using analyze_url_structure_loose_tests [of no_ip] by simp


section \<open>Stored confidences stay non-negative\<close>

text \<open>The empty store has no negative confidence, and no operation of the store or run of
  \<open>analyze_url\<close> introduces one: the bound on the confidence of a verdict holds in every
  store the program builds.\<close>

lemma bump_rows_nonneg:
  "(\<forall>row \<in> set (bump_rows w h rows). 0 \<le> su_confidence row) =
   (\<forall>row \<in> set rows. 0 \<le> su_confidence row)"
  by (induction rows) (auto simp: bump_rows_def)

lemma check_url_in_database_nonneg:
  "stored_nonneg db \<Longrightarrow> stored_nonneg (snd (check_url_in_database w db n))"
  by (auto simp: stored_nonneg_def check_url_in_database_def Let_def bump_rows_nonneg
      split: option.splits)

lemma add_user_report_nonneg:
  "stored_nonneg db \<Longrightarrow> stored_nonneg (snd (add_user_report w db url d uid))"
  by (auto simp: stored_nonneg_def add_user_report_def Let_def bump_rows_nonneg
      insert_or_ignore_def split: sum.splits)

lemma log_detection_nonneg:
  "stored_nonneg (log_detection w db n l c m s) = stored_nonneg db"
  by (simp add: stored_nonneg_def log_detection_def)

lemma calls_store [simp]: "store (calls cs st) = store st"
  by (simp add: calls_def)

lemma local_database_path_nonneg:
  "stored_nonneg (store st) \<Longrightarrow> stored_nonneg (store (snd (local_database_path w st n hit r0)))"
  by (simp add: local_database_path_def log_results_def log_detection_nonneg Let_def)

lemma urlhaus_path_nonneg:
  "stored_nonneg (store st) \<Longrightarrow> stored_nonneg (store (snd (urlhaus_path w st n u r0)))"
  by (cases "urlparse (ip_address w) n")
     (simp_all add: urlhaus_path_def log_results_def log_detection_nonneg add_user_report_nonneg
       Let_def split: prod.splits)

lemma fallback_path_store: "store (snd (fallback_path w st n r0)) = store st"
  by (cases "urlparse (ip_address w) n"; cases "pattern_analysis n";
      cases "analyze_url_structure (ip_address w) n")
     (simp_all add: fallback_path_def Let_def split: prod.splits)

lemma analyze_url_snd: "snd (analyze_url w st url) = snd (analyze_body w st url)"
  by (cases "analyze_body w st url") (auto simp: analyze_url_def split: sum.splits)

lemma analyze_url_nonneg:
  assumes "stored_nonneg (store st)"
  shows "stored_nonneg (store (snd (analyze_url w st url)))"
proof (cases "normalize_url (ip_address w) url")
  case (Inl e)
  then show ?thesis using assms by (simp add: analyze_url_snd analyze_body_Inl)
next
  case (Inr n)
  obtain dr db1 where ch: "check_url_in_database w (store st) n = (dr, db1)"
    by (cases "check_url_in_database w (store st) n") auto
  have db1: "stored_nonneg db1"
    using check_url_in_database_nonneg [OF assms, of w n] ch by simp
  show ?thesis
    unfolding analyze_url_snd analyze_body_unfold [OF Inr ch]
    using db1
    by (cases dr)
       (simp_all add: local_database_path_nonneg urlhaus_path_nonneg fallback_path_store)
qed

lemma empty_db_nonneg: "stored_nonneg empty_db"
  by (simp add: stored_nonneg_def empty_db_def)

text \<open>The seed records keep the bound, and each of them is created with report count 1.\<close>

lemma insert_or_ignore_rows:
  assumes "\<forall>r \<in> set rows. P r" and "P (row\<lparr>su_id := length rows + 1\<rparr>)"
  shows "\<forall>r \<in> set (insert_or_ignore row rows). P r"
  using assms by (simp add: insert_or_ignore_def)

lemma insert_defaults_rows:
  assumes new: "\<And>row. su_confidence row = 0.9 \<Longrightarrow> su_report_count row = 1 \<Longrightarrow> P row"
  shows "insert_defaults w ds rows = Inr rows' \<Longrightarrow> \<forall>row \<in> set rows. P row \<Longrightarrow>
         \<forall>row \<in> set rows'. P row"
proof (induction ds arbitrary: rows)
  case Nil
  then show ?case by simp
next
  case (Cons d ds)
  obtain url threat_type source tags where d: "d = (url, threat_type, source, tags)"
    by (cases d) auto
  show ?case
  proof (cases "urlparse (ip_address w) url")
    case (Inl e)
    then show ?thesis using Cons.prems(1) by (simp add: d)
  next
    case (Inr parsed)
    define row where "row = \<lparr>su_id = 0, su_url_hash = hash_url w url, su_original_url = url,
                su_domain = netloc parsed, su_threat_type = threat_type, su_confidence = 0.9,
                su_source = source, su_tags = Some tags, su_first_seen = clock w,
                su_last_seen = clock w, su_report_count = 1, su_is_active = True\<rparr>"
    have rec: "insert_defaults w ds (insert_or_ignore row rows) = Inr rows'"
      using Cons.prems(1) by (simp add: d Inr row_def)
    have "P (row\<lparr>su_id := length rows + 1\<rparr>)"
      by (rule new) (simp_all add: row_def)
    then have "\<forall>r \<in> set (insert_or_ignore row rows). P r"
      using Cons.prems(2) by (intro insert_or_ignore_rows)
    then show ?thesis using Cons.IH [OF rec] by blast
  qed
qed

lemma add_default_scam_urls_nonneg:
  assumes "stored_nonneg db"
  shows "stored_nonneg (add_default_scam_urls w db)"
proof (cases "insert_defaults w default_scams (scam_urls db)")
  case (Inl e)
  then show ?thesis using assms by (simp add: add_default_scam_urls_def)
next
  case (Inr rows)
  have "\<forall>row \<in> set rows. 0 \<le> su_confidence row"
    using insert_defaults_rows [where P = "\<lambda>row. 0 \<le> su_confidence row", OF _ Inr] assms
    by (simp add: stored_nonneg_def)
  then show ?thesis using assms Inr by (simp add: add_default_scam_urls_def stored_nonneg_def)
qed

lemma add_default_scam_urls_count:
  "\<forall>row \<in> set (scam_urls (add_default_scam_urls w empty_db)). su_report_count row = 1"
proof (cases "insert_defaults w default_scams []")
  case (Inl e)
  then show ?thesis by (simp add: add_default_scam_urls_def empty_db_def)
next
  case (Inr rows)
  have "\<forall>row \<in> set rows. su_report_count row = 1"
    using insert_defaults_rows [where P = "\<lambda>row. su_report_count row = 1", OF _ Inr]
    by simp
  then show ?thesis using Inr by (simp add: add_default_scam_urls_def empty_db_def)
qed

end
